theory Spec2Isabelle
  imports Complex_Main "HOL-Library.AList" "HOL-Library.Log_Nat"
begin

section \<open>JavaScript strings\<close>

text \<open>
  A JavaScript string is a sequence of UTF-16 code units, and every string operation the
  program uses (\<open>includes\<close>, \<open>startsWith\<close>, \<open>indexOf\<close>, \<open>substring\<close>, \<open>split\<close>,
  \<open>trim\<close>) works on code units.  A string is therefore a list of code units, each a
  natural number below 65536.  ASCII text is written \<open>js ''...''\<close>; the CJK characters and
  the arrow glyph of the catalog format are given by their code units.
\<close>

type_synonym jsstring = "nat list"

definition js :: "string \<Rightarrow> jsstring" where
  "js s = map of_char s"

text \<open>\<open>s.startsWith(p)\<close>\<close>

definition startsWith :: "jsstring \<Rightarrow> jsstring \<Rightarrow> bool" where
  "startsWith s p = (take (length p) s = p)"

text \<open>\<open>s.includes(p)\<close>: some suffix of \<open>s\<close> starts with \<open>p\<close>.\<close>

primrec includes_js :: "jsstring \<Rightarrow> jsstring \<Rightarrow> bool" where
  "includes_js [] p = (p = [])"
| "includes_js (c # cs) p = (if startsWith (c # cs) p then True else includes_js cs p)"

text \<open>
  \<open>s.toLowerCase()\<close> on the code units \<open>A\<close>..\<open>Z\<close>; every other code unit is kept.  This
  is the exact result for text whose cased letters are ASCII (ASCII and CJK names); the
  case mappings of other alphabets are not modelled.
\<close>

definition lower_unit :: "nat \<Rightarrow> nat" where
  "lower_unit c = (if 65 \<le> c \<and> c \<le> 90 then c + 32 else c)"

definition toLowerCase :: "jsstring \<Rightarrow> jsstring" where
  "toLowerCase s = map lower_unit s"

text \<open>
  \<open>s.indexOf(p)\<close>: the index of the first occurrence, or \<open>-1\<close>.
\<close>

primrec indexOf_from :: "jsstring \<Rightarrow> jsstring \<Rightarrow> int \<Rightarrow> int" where
  "indexOf_from [] p i = (if p = [] then i else - 1)"
| "indexOf_from (c # cs) p i = (if startsWith (c # cs) p then i else indexOf_from cs p (i + 1))"

definition indexOf :: "jsstring \<Rightarrow> jsstring \<Rightarrow> int" where
  "indexOf s p = indexOf_from s p 0"

text \<open>
  \<open>s.substring(a, b)\<close>: both indices are clamped to \<open>0..length\<close> and swapped when
  \<open>a > b\<close>; \<open>s.substring(a)\<close> runs to the end of the string.
\<close>

definition substring :: "jsstring \<Rightarrow> int \<Rightarrow> int \<Rightarrow> jsstring" where
  "substring s a b =
     (let len = int (length s);
          a' = min (max a 0) len;
          b' = min (max b 0) len;
          lo = min a' b';
          hi = max a' b'
      in take (nat (hi - lo)) (drop (nat lo) s))"

definition substring_from :: "jsstring \<Rightarrow> int \<Rightarrow> jsstring" where
  "substring_from s a = substring s a (int (length s))"

text \<open>
  \<open>s.split(c)\<close> for a one-unit separator: the pieces between the separators, at least
  one piece (splitting the empty string gives one empty piece).
\<close>

fun split_js :: "nat \<Rightarrow> jsstring \<Rightarrow> jsstring list" where
  "split_js sep [] = [[]]"
| "split_js sep (c # cs) =
     (if c = sep then [] # split_js sep cs
      else (case split_js sep cs of
              [] \<Rightarrow> [[c]]
            | p # ps \<Rightarrow> (c # p) # ps))"

text \<open>\<open>parts.join(sep)\<close>\<close>

fun join_js :: "jsstring \<Rightarrow> jsstring list \<Rightarrow> jsstring" where
  "join_js sep [] = []"
| "join_js sep [p] = p"
| "join_js sep (p # q # ps) = p @ sep @ join_js sep (q # ps)"

text \<open>
  \<open>s.trim()\<close> removes the ECMAScript white space and line terminator code units from
  both ends.
\<close>

definition js_white :: "nat \<Rightarrow> bool" where
  "js_white c \<longleftrightarrow>
     c = 9 \<or> c = 10 \<or> c = 11 \<or> c = 12 \<or> c = 13 \<or> c = 32 \<or> c = 0xA0 \<or> c = 0x1680
     \<or> (0x2000 \<le> c \<and> c \<le> 0x200A) \<or> c = 0x2028 \<or> c = 0x2029 \<or> c = 0x202F
     \<or> c = 0x205F \<or> c = 0x3000 \<or> c = 0xFEFF"

definition trim :: "jsstring \<Rightarrow> jsstring" where
  "trim s = rev (dropWhile js_white (rev (dropWhile js_white s)))"

text \<open>\<open>s.replace(p, r)\<close> with a string pattern replaces the first occurrence only.\<close>

primrec replace_first :: "jsstring \<Rightarrow> jsstring \<Rightarrow> jsstring \<Rightarrow> jsstring" where
  "replace_first [] p r = (if p = [] then r else [])"
| "replace_first (c # cs) p r =
     (if startsWith (c # cs) p then r @ drop (length p) (c # cs)
      else c # replace_first cs p r)"

text \<open>
  \<open>content.split('\n').map(line => line.trim()).filter(Boolean)\<close>: the trimmed lines
  that are not empty (the empty string is the only falsy string).
\<close>

definition content_lines :: "jsstring \<Rightarrow> jsstring list" where
  "content_lines content = filter (\<lambda>l. l \<noteq> []) (map trim (split_js 10 content))"

section \<open>FormatDetector (src/lib/live-parser.ts)\<close>

datatype format = HLS | DASH | FLV | RTMP

datatype quality = SD | HD | FHD

text \<open>The two CJK keywords of \<open>detectQuality\<close>: U+9AD8 U+6E05 and U+5168 U+9AD8 U+6E05.\<close>

definition kw_gaoqing :: jsstring where
  "kw_gaoqing = [0x9AD8, 0x6E05]"

definition kw_quangaoqing :: jsstring where
  "kw_quangaoqing = [0x5168, 0x9AD8, 0x6E05]"

text \<open>\<open>detectStreamFormat\<close>, lines 135-149.\<close>

definition detectStreamFormat :: "jsstring \<Rightarrow> format" where
  "detectStreamFormat url =
     (let urlLower = toLowerCase url in
      if includes_js urlLower (js ''.m3u8'') \<or> includes_js urlLower (js ''hls'') then HLS
      else if includes_js urlLower (js ''.mpd'') \<or> includes_js urlLower (js ''dash'') then DASH
      else if includes_js urlLower (js ''.flv'') then FLV
      else if startsWith urlLower (js ''rtmp://'') then RTMP
      else HLS)"

text \<open>
  \<open>detectQuality\<close>, lines 154-164.  The source tests the HD keywords first and the FHD
  keywords in the \<open>else if\<close>; the model keeps that order.
\<close>

definition detectQuality :: "jsstring \<Rightarrow> quality" where
  "detectQuality name =
     (let nameLower = toLowerCase name in
      if includes_js nameLower (js ''hd'') \<or> includes_js nameLower kw_gaoqing then HD
      else if includes_js nameLower (js ''fhd'') \<or> includes_js nameLower (js ''1080p'')
              \<or> includes_js nameLower kw_quangaoqing then FHD
      else SD)"

section \<open>PlaylistParser: M3U (src/lib/live-parser.ts, parseM3U)\<close>

text \<open>
  \<open>LivePlaylistItem\<close> of src/types/live.ts.  \<open>category\<close> and \<open>logo\<close> are optional
  fields; \<open>parseM3U\<close> never sets them.
\<close>

record LivePlaylistItem =
  item_name :: jsstring
  item_url :: jsstring
  item_category :: "jsstring option"
  item_logo :: "jsstring option"

definition playlist_item :: "jsstring \<Rightarrow> jsstring \<Rightarrow> LivePlaylistItem" where
  "playlist_item n u =
     \<lparr>item_name = n, item_url = u, item_category = None, item_logo = None\<rparr>"

text \<open>
  Lines 23-24: \<open>const [, ...titleParts] = info.split(','); titleParts.join(',').trim()\<close>.
  The first piece is dropped and the others are joined with commas again.
\<close>

definition extinf_title :: "jsstring \<Rightarrow> jsstring" where
  "extinf_title info = trim (join_js (js '','') (tl (split_js 44 info)))"

text \<open>
  Lines 35-43, the direct form \<open>Name,URL\<close>: \<open>const [name, ...urlParts] = line.split(',')\<close>.
  The result is the item pushed, if any (an empty name or URL is falsy).
\<close>

definition direct_item :: "jsstring \<Rightarrow> LivePlaylistItem option" where
  "direct_item line =
     (case split_js 44 line of
        [] \<Rightarrow> None
      | n # urlParts \<Rightarrow>
          (let u = join_js (js '','') urlParts
           in if n \<noteq> [] \<and> u \<noteq> [] then Some (playlist_item (trim n) (trim u)) else None))"

text \<open>
  The \<open>for\<close> loop of lines 11-45 over the index \<open>i\<close>, with the items pushed so far.
  \<open>lines[i + 1]\<close> is \<open>undefined\<close> past the end, and \<open>undefined\<close> and the empty string are
  falsy.  A pushed \<open>#EXTINF\<close> item advances the index by two.
\<close>

function parseM3U_loop ::
  "jsstring list \<Rightarrow> nat \<Rightarrow> LivePlaylistItem list \<Rightarrow> LivePlaylistItem list" where
  "parseM3U_loop lines i items =
     (if i < length lines then
        (if startsWith (lines ! i) (js ''#EXTM3U'') \<or> lines ! i = [] then
           parseM3U_loop lines (i + 1) items
         else if startsWith (lines ! i) (js ''#EXTINF:'') then
           (if i + 1 < length lines \<and> lines ! (i + 1) \<noteq> []
               \<and> \<not> startsWith (lines ! (i + 1)) (js ''#'') then
              parseM3U_loop lines (i + 2)
                (items @ [playlist_item (extinf_title (substring_from (lines ! i) 8))
                            (lines ! (i + 1))])
            else parseM3U_loop lines (i + 1) items)
         else if includes_js (lines ! i) (js '',http'') then
           (case direct_item (lines ! i) of
              Some it \<Rightarrow> parseM3U_loop lines (i + 1) (items @ [it])
            | None \<Rightarrow> parseM3U_loop lines (i + 1) items)
         else parseM3U_loop lines (i + 1) items)
      else items)"
  by pat_completeness auto
termination
  by (relation "measure (\<lambda>(lines, i, items). length lines - i)") auto

declare parseM3U_loop.simps [simp del]

text \<open>The loop run from \<open>i = 0\<close> with no items, on given lines.\<close>

definition parseM3U_lines :: "jsstring list \<Rightarrow> LivePlaylistItem list" where
  "parseM3U_lines lines = parseM3U_loop lines 0 []"

definition parseM3U :: "jsstring \<Rightarrow> LivePlaylistItem list" where
  "parseM3U content = parseM3U_lines (content_lines content)"

text \<open>
  The same scan written by recursion on the lines that remain; \<open>parseM3U_loop_scan\<close> below
  proves that the loop computes it.
\<close>

fun m3u_scan :: "jsstring list \<Rightarrow> LivePlaylistItem list" where
  "m3u_scan [] = []"
| "m3u_scan (line # rest) =
     (if startsWith line (js ''#EXTM3U'') \<or> line = [] then m3u_scan rest
      else if startsWith line (js ''#EXTINF:'') then
        (case rest of
           [] \<Rightarrow> []
         | nextLine # rest' \<Rightarrow>
             if nextLine \<noteq> [] \<and> \<not> startsWith nextLine (js ''#'') then
               playlist_item (extinf_title (substring_from line 8)) nextLine # m3u_scan rest'
             else m3u_scan rest)
      else if includes_js line (js '',http'') then
        (case direct_item line of
           Some it \<Rightarrow> it # m3u_scan rest
         | None \<Rightarrow> m3u_scan rest)
      else m3u_scan rest)"

text \<open>
  The reading of the specification that the title is what follows the last comma of the
  \<open>#EXTINF:\<close> payload (the last piece of the split).
\<close>

definition title_after_last_comma :: "jsstring \<Rightarrow> jsstring" where
  "title_after_last_comma info = last (split_js 44 info)"

section \<open>Channels and categories (src/types/live.ts)\<close>

text \<open>
  \<open>LiveChannel\<close> and \<open>LiveCategory\<close> with the fields the modelled functions read or
  write; an optional field is an \<open>option\<close>.  The fields \<open>logo\<close>, \<open>sortOrder\<close>,
  \<open>lastTested\<close>, \<open>avgBitrate\<close> and \<open>codec\<close> of a channel and \<open>description\<close> and \<open>icon\<close> of
  a category are only copied by code outside the model and are left out.
\<close>

record LiveChannel =
  ch_id :: jsstring
  ch_name :: jsstring
  ch_urls :: "jsstring list"
  ch_category :: jsstring
  ch_description :: "jsstring option"
  ch_tags :: "jsstring list option"
  ch_quality :: "quality option"
  ch_language :: "jsstring option"
  ch_country :: "jsstring option"
  ch_isActive :: "bool option"
  ch_format :: "format option"

record LiveCategory =
  cat_id :: jsstring
  cat_name :: jsstring
  cat_sortOrder :: "int option"
  cat_channels :: "LiveChannel list"

text \<open>
  \<open>Array.prototype.sort(compare)\<close> is stable; for a comparator that is a consistent
  ordering its result is the stable insertion of every element into the sorted rest, which
  is what \<open>sort_by\<close> computes.  The comparator returns a negative number, zero or a
  positive number.  \<open>a.localeCompare(b, 'zh-CN')\<close> is the platform's collation and is a
  parameter \<open>localeCompare\<close> of the functions that sort by it.
\<close>

fun insert_by :: "('a \<Rightarrow> 'a \<Rightarrow> int) \<Rightarrow> 'a \<Rightarrow> 'a list \<Rightarrow> 'a list" where
  "insert_by cmp x [] = [x]"
| "insert_by cmp x (y # ys) = (if cmp x y \<le> 0 then x # y # ys else y # insert_by cmp x ys)"

definition sort_by :: "('a \<Rightarrow> 'a \<Rightarrow> int) \<Rightarrow> 'a list \<Rightarrow> 'a list" where
  "sort_by cmp xs = foldr (insert_by cmp) xs []"

text \<open>An exception value: its message.\<close>

datatype js_error = JsError jsstring

section \<open>PlaylistParser: the delimited catalog (live-parser.ts, parseChineseTVFormat)\<close>

text \<open>
  The category marker, the arrow glyph U+2192 and the name of the default category
  (U+672A U+5206 U+7C7B).
\<close>

definition genre_marker :: jsstring where
  "genre_marker = js '',#genre#''"

definition arrow :: jsstring where
  "arrow = [0x2192]"

definition uncategorized :: jsstring where
  "uncategorized = [0x672A, 0x5206, 0x7C7B]"

text \<open>
  \<open>s.replace(/[^a-zA-Z0-9\u4e00-\u9fa5-]/g, '-')\<close>: every code unit outside the class
  becomes a hyphen.
\<close>

definition id_unit :: "nat \<Rightarrow> bool" where
  "id_unit c \<longleftrightarrow>
     (97 \<le> c \<and> c \<le> 122) \<or> (65 \<le> c \<and> c \<le> 90) \<or> (48 \<le> c \<and> c \<le> 57)
     \<or> (0x4E00 \<le> c \<and> c \<le> 0x9FA5) \<or> c = 45"

definition make_id :: "jsstring \<Rightarrow> jsstring" where
  "make_id s = map (\<lambda>c. if id_unit c then c else 45) s"

text \<open>Lines 96-106: the channel created for a name seen for the first time.\<close>

definition new_channel :: "jsstring \<Rightarrow> jsstring \<Rightarrow> jsstring \<Rightarrow> LiveChannel" where
  "new_channel currentCategory channelName channelUrl =
     \<lparr>ch_id = make_id (currentCategory @ js ''-'' @ channelName),
      ch_name = channelName,
      ch_urls = [channelUrl],
      ch_category = currentCategory,
      ch_description = None,
      ch_tags = None,
      ch_quality = Some (detectQuality channelName),
      ch_language = Some (js ''zh-CN''),
      ch_country = Some (js ''CN''),
      ch_isActive = Some True,
      ch_format = Some (detectStreamFormat channelUrl)\<rparr>"

text \<open>
  Lines 91-93: \<open>if (!existingChannel.urls.includes(channelUrl))
  existingChannel.urls.push(channelUrl)\<close>.
\<close>

definition push_url :: "jsstring \<Rightarrow> LiveChannel \<Rightarrow> LiveChannel" where
  "push_url channelUrl ch =
     (if channelUrl \<in> set (ch_urls ch) then ch
      else ch\<lparr>ch_urls := ch_urls ch @ [channelUrl]\<rparr>)"

text \<open>
  \<open>find\<close> returns the first element that satisfies the test, and the source mutates that
  object in place: the array afterwards has the changed element at the same position.
\<close>

fun update_first :: "('a \<Rightarrow> bool) \<Rightarrow> ('a \<Rightarrow> 'a) \<Rightarrow> 'a list \<Rightarrow> 'a list" where
  "update_first P f [] = []"
| "update_first P f (x # xs) = (if P x then f x # xs else x # update_first P f xs)"

text \<open>
  The state of the loop of lines 58-112: the \<open>Map\<close> from category names to channel arrays,
  in insertion order, and \<open>currentCategory\<close>.  \<open>Map.set\<close> on a key that is present keeps
  its position.
\<close>

record tv_state =
  tv_categories :: "(jsstring \<times> LiveChannel list) list"
  tv_current :: jsstring

text \<open>One iteration of the loop, lines 59-111.\<close>

definition tv_line :: "jsstring \<Rightarrow> tv_state \<Rightarrow> tv_state" where
  "tv_line line st =
     (if includes_js line genre_marker then
        (let currentCategory = trim (replace_first line genre_marker [])
         in \<lparr>tv_categories =
               (if map_of (tv_categories st) currentCategory = None
                then AList.update currentCategory [] (tv_categories st)
                else tv_categories st),
             tv_current = currentCategory\<rparr>)
      else if line = [] \<or> startsWith line (js ''#'') then st
      else
        (let arrowIndex = indexOf line arrow in
         if arrowIndex = - 1 then st
         else
           (let afterArrow = substring_from line (arrowIndex + 1);
                commaIndex = indexOf afterArrow (js '','')
            in if commaIndex = - 1 then st
               else
                 (let channelName = trim (substring afterArrow 0 commaIndex);
                      channelUrl = trim (substring_from afterArrow (commaIndex + 1))
                  in if channelName = [] \<or> channelUrl = [] then st
                     else
                       (let categoryChannels =
                              (case map_of (tv_categories st) (tv_current st) of
                                 None \<Rightarrow> []
                               | Some chs \<Rightarrow> chs)
                        in st\<lparr>tv_categories :=
                                AList.update (tv_current st)
                                  (case find (\<lambda>ch. ch_name ch = channelName) categoryChannels of
                                     Some existingChannel \<Rightarrow>
                                       update_first (\<lambda>ch. ch_name ch = channelName)
                                         (push_url channelUrl) categoryChannels
                                   | None \<Rightarrow>
                                       categoryChannels
                                         @ [new_channel (tv_current st) channelName channelUrl])
                                  (tv_categories st)\<rparr>)))))"

definition tv_initial :: tv_state where
  "tv_initial = \<lparr>tv_categories = [], tv_current = uncategorized\<rparr>"

definition tv_loop :: "jsstring list \<Rightarrow> tv_state \<Rightarrow> tv_state" where
  "tv_loop lines st = foldl (\<lambda>s line. tv_line line s) st lines"

text \<open>
  Lines 115-127: a category for every entry of the map with at least one channel, the
  channels sorted by name, \<open>sortOrder\<close> counting the categories emitted.
\<close>

fun emit_categories ::
  "(jsstring \<Rightarrow> jsstring \<Rightarrow> int) \<Rightarrow> (jsstring \<times> LiveChannel list) list \<Rightarrow> int
     \<Rightarrow> LiveCategory list" where
  "emit_categories localeCompare [] sortOrder = []"
| "emit_categories localeCompare ((categoryName, channels) # rest) sortOrder =
     (if channels \<noteq> [] then
        \<lparr>cat_id = make_id categoryName,
         cat_name = categoryName,
         cat_sortOrder = Some sortOrder,
         cat_channels = sort_by (\<lambda>a b. localeCompare (ch_name a) (ch_name b)) channels\<rparr>
        # emit_categories localeCompare rest (sortOrder + 1)
      else emit_categories localeCompare rest sortOrder)"

text \<open>Line 129: \<open>(a, b) => (a.sortOrder || 0) - (b.sortOrder || 0)\<close>.\<close>

definition sortOrder_compare :: "LiveCategory \<Rightarrow> LiveCategory \<Rightarrow> int" where
  "sortOrder_compare a b =
     (case cat_sortOrder a of None \<Rightarrow> 0 | Some k \<Rightarrow> k)
     - (case cat_sortOrder b of None \<Rightarrow> 0 | Some k \<Rightarrow> k)"

definition parseChineseTVFormat ::
  "(jsstring \<Rightarrow> jsstring \<Rightarrow> int) \<Rightarrow> jsstring \<Rightarrow> LiveCategory list" where
  "parseChineseTVFormat localeCompare content =
     sort_by sortOrder_compare
       (emit_categories localeCompare
          (tv_categories (tv_loop (content_lines content) tv_initial)) 0)"

text \<open>
  The reading of a line by the tests of lines 60-83: a category marker with the category
  name, a channel line with the channel name and the URL, or a line that is skipped.
  \<open>tv_line_classified\<close> below proves that \<open>tv_line\<close> acts on exactly this reading.
\<close>

datatype tv_line_kind = Genre jsstring | Entry jsstring jsstring | Ignored

definition tv_classify :: "jsstring \<Rightarrow> tv_line_kind" where
  "tv_classify line =
     (let afterArrow = substring_from line (indexOf line arrow + 1);
          commaIndex = indexOf afterArrow (js '','');
          channelName = trim (substring afterArrow 0 commaIndex);
          channelUrl = trim (substring_from afterArrow (commaIndex + 1))
      in if includes_js line genre_marker
           then Genre (trim (replace_first line genre_marker []))
         else if line = [] \<or> startsWith line (js ''#'') then Ignored
         else if indexOf line arrow = - 1 then Ignored
         else if commaIndex = - 1 then Ignored
         else if channelName = [] \<or> channelUrl = [] then Ignored
         else Entry channelName channelUrl)"

text \<open>
  The channel lines of a text in order, each with the category that is current when the
  line is read: triples of category name, channel name and URL.
\<close>

fun tv_entries :: "jsstring \<Rightarrow> jsstring list \<Rightarrow> (jsstring \<times> jsstring \<times> jsstring) list" where
  "tv_entries cur [] = []"
| "tv_entries cur (line # rest) =
     (case tv_classify line of
        Genre c \<Rightarrow> tv_entries c rest
      | Entry n u \<Rightarrow> (cur, n, u) # tv_entries cur rest
      | Ignored \<Rightarrow> tv_entries cur rest)"

text \<open>The URLs of the channel lines of one category and channel name, in order.\<close>

definition entry_urls ::
  "(jsstring \<times> jsstring \<times> jsstring) list \<Rightarrow> jsstring \<Rightarrow> jsstring \<Rightarrow> jsstring list" where
  "entry_urls es c n = map (\<lambda>e. snd (snd e)) (filter (\<lambda>e. fst e = c \<and> fst (snd e) = n) es)"

text \<open>
  A list of URLs with every URL that occurred before dropped: each URL is appended unless
  the list built so far contains it.
\<close>

definition append_new :: "jsstring list \<Rightarrow> jsstring \<Rightarrow> jsstring list" where
  "append_new acc u = (if u \<in> set acc then acc else acc @ [u])"

definition first_occurrences :: "jsstring list \<Rightarrow> jsstring list" where
  "first_occurrences us = foldl append_new [] us"

text \<open>The channels of a given name in the categories of a given name of a result.\<close>

definition channels_named :: "LiveCategory list \<Rightarrow> jsstring \<Rightarrow> jsstring \<Rightarrow> LiveChannel list" where
  "channels_named cats c n =
     concat (map (\<lambda>cat. filter (\<lambda>ch. ch_name ch = n) (cat_channels cat))
                 (filter (\<lambda>cat. cat_name cat = c) cats))"

text \<open>
  The two actions of \<open>tv_line\<close> on the state, named for the proofs: a marker line opens
  a category, a channel line adds its URL to the current category.
\<close>

definition open_category :: "jsstring \<Rightarrow> tv_state \<Rightarrow> tv_state" where
  "open_category c st =
     \<lparr>tv_categories =
        (if map_of (tv_categories st) c = None then AList.update c [] (tv_categories st)
         else tv_categories st),
      tv_current = c\<rparr>"

definition current_channels :: "tv_state \<Rightarrow> LiveChannel list" where
  "current_channels st =
     (case map_of (tv_categories st) (tv_current st) of None \<Rightarrow> [] | Some chs \<Rightarrow> chs)"

definition upsert_channel ::
  "jsstring \<Rightarrow> jsstring \<Rightarrow> jsstring \<Rightarrow> LiveChannel list \<Rightarrow> LiveChannel list" where
  "upsert_channel c n u chs =
     (case find (\<lambda>ch. ch_name ch = n) chs of
        Some existingChannel \<Rightarrow> update_first (\<lambda>ch. ch_name ch = n) (push_url u) chs
      | None \<Rightarrow> chs @ [new_channel c n u])"

definition add_channel_url :: "jsstring \<Rightarrow> jsstring \<Rightarrow> tv_state \<Rightarrow> tv_state" where
  "add_channel_url n u st =
     st\<lparr>tv_categories :=
          AList.update (tv_current st)
            (upsert_channel (tv_current st) n u (current_channels st))
            (tv_categories st)\<rparr>"

text \<open>
  The channel that the lines of one category and name amount to: created from the first
  URL, holding the first occurrences of all the URLs.
\<close>

definition merged_channel :: "jsstring \<Rightarrow> jsstring \<Rightarrow> jsstring list \<Rightarrow> LiveChannel" where
  "merged_channel c n us = (new_channel c n (hd us))\<lparr>ch_urls := first_occurrences us\<rparr>"

text \<open>
  The invariant of the loop, for the channel lines \<open>es\<close> read so far: the categories have
  distinct names, the channels of a category have distinct names, every channel is the
  merged channel of its lines, and every channel line has its channel.
\<close>

definition tv_inv ::
  "(jsstring \<times> jsstring \<times> jsstring) list \<Rightarrow> (jsstring \<times> LiveChannel list) list \<Rightarrow> bool" where
  "tv_inv es cats \<longleftrightarrow>
     distinct (map fst cats)
     \<and> (\<forall>k chs. map_of cats k = Some chs \<longrightarrow>
           distinct (map ch_name chs)
           \<and> (\<forall>ch \<in> set chs. entry_urls es k (ch_name ch) \<noteq> []
                 \<and> ch = merged_channel k (ch_name ch) (entry_urls es k (ch_name ch))))
     \<and> (\<forall>c n. entry_urls es c n \<noteq> [] \<longrightarrow>
           (\<exists>chs. map_of cats c = Some chs \<and> n \<in> ch_name ` set chs))"

section \<open>CatalogCache (src/app/api/live/route.ts, getChannelsData)\<close>

text \<open>
  The module variables \<open>channelsCache\<close> (\<open>null\<close> is \<open>None\<close>) and \<open>lastCacheUpdate\<close>.  An
  array, also the empty one, is truthy.
\<close>

record cache_state =
  channelsCache :: "LiveCategory list option"
  lastCacheUpdate :: int

definition CACHE_TTL :: int where
  "CACHE_TTL = 5 * 60 * 1000"

text \<open>
  What \<open>JSON.parse(content)\<close> returns, as far as \<open>liveData.categories || []\<close> reads it:
  \<open>null\<close>, on which the property access throws a TypeError, or a value whose \<open>categories\<close>
  property is absent or falsy (\<open>None\<close>) or an array of categories.
\<close>

datatype live_doc = DocNull | DocValue "LiveCategory list option"

text \<open>
  Lines 22-35, the body of the \<open>try\<close>.  \<open>readFile\<close> is the outcome of reading \<open>live.json\<close>
  (a rejected promise is \<open>Inl\<close>) and \<open>JSON_parse\<close> the parser (a SyntaxError is \<open>Inl\<close>).
  The result is the value returned together with the new module state.
\<close>

definition reload_catalog ::
  "cache_state \<Rightarrow> int \<Rightarrow> js_error + jsstring \<Rightarrow> (jsstring \<Rightarrow> js_error + live_doc)
     \<Rightarrow> js_error + (LiveCategory list \<times> cache_state)" where
  "reload_catalog st now readFile JSON_parse =
     (case readFile of
        Inl e \<Rightarrow> Inl e
      | Inr content \<Rightarrow>
          (case JSON_parse content of
             Inl e \<Rightarrow> Inl e
           | Inr DocNull \<Rightarrow> Inl (JsError (js ''Cannot read properties of null''))
           | Inr (DocValue c) \<Rightarrow>
               (let categories = (case c of None \<Rightarrow> [] | Some cs \<Rightarrow> cs)
                in Inr (categories,
                        st\<lparr>channelsCache := Some categories, lastCacheUpdate := now\<rparr>))))"

text \<open>
  \<open>getChannelsData\<close>, lines 14-40, at the time \<open>now = Date.now()\<close>.  The \<open>catch\<close> returns
  \<open>channelsCache || []\<close> and leaves the module state as it was.  \<open>Inl\<close> would be an exception
  leaving the function.
\<close>

definition getChannelsData ::
  "cache_state \<Rightarrow> int \<Rightarrow> js_error + jsstring \<Rightarrow> (jsstring \<Rightarrow> js_error + live_doc)
     \<Rightarrow> js_error + (LiveCategory list \<times> cache_state)" where
  "getChannelsData st now readFile JSON_parse =
     (case channelsCache st of
        Some cached \<Rightarrow>
          if now - lastCacheUpdate st < CACHE_TTL then Inr (cached, st)
          else (case reload_catalog st now readFile JSON_parse of
                  Inr r \<Rightarrow> Inr r
                | Inl e \<Rightarrow> Inr (cached, st))
      | None \<Rightarrow>
          (case reload_catalog st now readFile JSON_parse of
             Inr r \<Rightarrow> Inr r
           | Inl e \<Rightarrow> Inr ([], st)))"

text \<open>The reload fails: the file cannot be read, is not JSON, or is the JSON \<open>null\<close>.\<close>

definition reload_fails :: "js_error + jsstring \<Rightarrow> (jsstring \<Rightarrow> js_error + live_doc) \<Rightarrow> bool" where
  "reload_fails readFile JSON_parse =
     (case readFile of
        Inl e \<Rightarrow> True
      | Inr content \<Rightarrow>
          (case JSON_parse content of Inl e \<Rightarrow> True | Inr DocNull \<Rightarrow> True | Inr (DocValue c) \<Rightarrow> False))"

text \<open>\<open>handleRefreshChannels\<close>, lines 268-274: the cache is cleared before the reload.\<close>

definition clear_cache :: "cache_state \<Rightarrow> cache_state" where
  "clear_cache st = st\<lparr>channelsCache := None, lastCacheUpdate := 0\<rparr>"

section \<open>Catalog query (src/app/api/live/route.ts, handleGetChannels)\<close>

text \<open>
  The values of type Number that the query computes with: a finite double whose value is
  an integer (\<open>Num\<close>, with \<open>Num 0\<close> the positive zero), the negative zero, \<open>NaN\<close> and the
  two infinities.
\<close>

datatype jsnum = Num int | NegZero | NaN | PosInf | NegInf

text \<open>
  The double nearest to an integer (IEEE 754 round to nearest, ties to even): integers of
  magnitude up to \<open>2^53\<close> are doubles; a larger one keeps its leading 53 bits, rounded; from
  \<open>2^1024 - 2^970\<close> on, half way from the largest double to \<open>2^1024\<close>, the result is
  infinite.
\<close>

definition round_int :: "int \<Rightarrow> jsnum" where
  "round_int n =
     (if \<bar>n\<bar> \<le> 2 ^ 53 then Num n
      else if 2 ^ 1024 - 2 ^ 970 \<le> \<bar>n\<bar> then (if n < 0 then NegInf else PosInf)
      else
        (let sh = nat (bitlen \<bar>n\<bar> - 53);
             q = \<bar>n\<bar> div 2 ^ sh;
             r = \<bar>n\<bar> mod 2 ^ sh;
             q' = (if 2 ^ sh < 2 * r \<or> (2 * r = 2 ^ sh \<and> odd q) then q + 1 else q)
         in Num (sgn n * (q' * 2 ^ sh))))"

definition is_zero :: "jsnum \<Rightarrow> bool" where
  "is_zero x \<longleftrightarrow> x = Num 0 \<or> x = NegZero"

definition is_negative :: "jsnum \<Rightarrow> bool" where
  "is_negative x = (case x of Num n \<Rightarrow> n < 0 | NegZero \<Rightarrow> True | NegInf \<Rightarrow> True
                    | NaN \<Rightarrow> False | PosInf \<Rightarrow> False)"

text \<open>
  \<open>x - 1\<close>, \<open>x * y\<close> and \<open>x + y\<close> of IEEE arithmetic on these values: the exact result
  rounded, the product of zero and infinity and the sum of opposite infinities \<open>NaN\<close>, the
  sign of a zero product the product of the signs, and an exact sum of zero positive
  unless both operands are the negative zero.
\<close>

definition num_sub1 :: "jsnum \<Rightarrow> jsnum" where
  "num_sub1 x = (case x of Num n \<Rightarrow> round_int (n - 1) | NegZero \<Rightarrow> Num (- 1) | NaN \<Rightarrow> NaN
                 | PosInf \<Rightarrow> PosInf | NegInf \<Rightarrow> NegInf)"

definition num_mul :: "jsnum \<Rightarrow> jsnum \<Rightarrow> jsnum" where
  "num_mul x y =
     (if x = NaN \<or> y = NaN then NaN
      else if x = PosInf \<or> x = NegInf \<or> y = PosInf \<or> y = NegInf then
        (if is_zero x \<or> is_zero y then NaN
         else if is_negative x = is_negative y then PosInf else NegInf)
      else if is_zero x \<or> is_zero y then
        (if is_negative x = is_negative y then Num 0 else NegZero)
      else (case (x, y) of (Num a, Num b) \<Rightarrow> round_int (a * b) | _ \<Rightarrow> NaN))"

definition num_add :: "jsnum \<Rightarrow> jsnum \<Rightarrow> jsnum" where
  "num_add x y =
     (if x = NaN \<or> y = NaN then NaN
      else if x = PosInf then (if y = NegInf then NaN else PosInf)
      else if x = NegInf then (if y = PosInf then NaN else NegInf)
      else if y = PosInf \<or> y = NegInf then y
      else if x = NegZero then y
      else if y = NegZero then x
      else (case (x, y) of (Num a, Num b) \<Rightarrow> round_int (a + b) | _ \<Rightarrow> NaN))"



text \<open>
  \<open>xs.slice(start, stop)\<close>: each argument is converted by ToIntegerOrInfinity (\<open>NaN\<close> and
  the zeros to 0); a negative index counts from the end, and both are clamped to
  \<open>0..length\<close>; the result is empty when the range is.
\<close>

definition slice_bound :: "nat \<Rightarrow> jsnum \<Rightarrow> int" where
  "slice_bound len x =
     (case x of
        Num n \<Rightarrow> if n < 0 then max (int len + n) 0 else min n (int len)
      | NegZero \<Rightarrow> 0
      | NaN \<Rightarrow> 0
      | PosInf \<Rightarrow> int len
      | NegInf \<Rightarrow> 0)"

definition js_slice :: "'a list \<Rightarrow> jsnum \<Rightarrow> jsnum \<Rightarrow> 'a list" where
  "js_slice xs start stop =
     (let k = slice_bound (length xs) start;
          fin = slice_bound (length xs) stop
      in take (nat (fin - k)) (drop (nat k) xs))"

text \<open>
  \<open>parseInt(s)\<close> without a radix: leading white space, an optional sign, an optional
  \<open>0x\<close> prefix selecting base 16, then the longest run of digits; \<open>NaN\<close> when there is no
  digit, the negative zero for a negative sign and the value 0, and otherwise the double
  nearest to the integer that the digits denote.  (ECMAScript lets an engine replace the
  decimal digits after the 20th by zeros before it rounds; the engines round the integer
  itself, as here.)
\<close>

definition digit_value :: "nat \<Rightarrow> nat" where
  "digit_value c =
     (if 48 \<le> c \<and> c \<le> 57 then c - 48
      else if 97 \<le> c \<and> c \<le> 122 then c - 87
      else if 65 \<le> c \<and> c \<le> 90 then c - 55
      else 36)"

definition digits_value :: "nat \<Rightarrow> jsstring \<Rightarrow> nat" where
  "digits_value r ds = foldl (\<lambda>acc c. acc * r + digit_value c) 0 ds"

definition parseInt :: "jsstring \<Rightarrow> jsnum" where
  "parseInt s =
     (let t = dropWhile js_white s;
          neg = (case t of [] \<Rightarrow> False | c # cs \<Rightarrow> c = 45);
          t1 = (case t of [] \<Rightarrow> [] | c # cs \<Rightarrow> if c = 43 \<or> c = 45 then cs else t);
          hex = (startsWith t1 (js ''0x'') \<or> startsWith t1 (js ''0X''));
          r = (if hex then 16 else 10);
          t2 = (if hex then drop 2 t1 else t1);
          ds = takeWhile (\<lambda>c. digit_value c < r) t2
      in if ds = [] then NaN
         else if neg then
           (if digits_value r ds = 0 then NegZero else round_int (- int (digits_value r ds)))
         else round_int (int (digits_value r ds)))"

text \<open>\<open>searchParams.get(k) || d\<close>: \<open>null\<close> and the empty string are falsy.\<close>

definition or_default :: "jsstring option \<Rightarrow> jsstring \<Rightarrow> jsstring" where
  "or_default v d = (case v of None \<Rightarrow> d | Some s \<Rightarrow> if s = [] then d else s)"

record channels_query =
  q_category :: "jsstring option"
  q_page :: "jsstring option"
  q_limit :: "jsstring option"
  q_sort :: "jsstring option"

text \<open>Lines 95-104: the channels of the category with the given id, or of all categories.\<close>

definition select_channels :: "LiveCategory list \<Rightarrow> jsstring option \<Rightarrow> LiveChannel list" where
  "select_channels categories categoryId =
     (if or_default categoryId [] \<noteq> [] then
        (case find (\<lambda>cat. Some (cat_id cat) = categoryId) categories of
           Some category \<Rightarrow> cat_channels category
         | None \<Rightarrow> [])
      else concat (map cat_channels categories))"

text \<open>Lines 107-123, the comparator of the sort.\<close>

definition qualityOrder :: "quality option \<Rightarrow> int" where
  "qualityOrder q = (case q of Some FHD \<Rightarrow> 3 | Some HD \<Rightarrow> 2 | Some SD \<Rightarrow> 1 | None \<Rightarrow> 1)"

definition channel_compare ::
  "(jsstring \<Rightarrow> jsstring \<Rightarrow> int) \<Rightarrow> jsstring \<Rightarrow> LiveChannel \<Rightarrow> LiveChannel \<Rightarrow> int" where
  "channel_compare localeCompare sortKey a b =
     (if sortKey = js ''name'' then localeCompare (ch_name a) (ch_name b)
      else if sortKey = js ''category'' then localeCompare (ch_category a) (ch_category b)
      else if sortKey = js ''quality'' then
        qualityOrder (ch_quality b) - qualityOrder (ch_quality a)
      else 0)"

definition sorted_channels ::
  "(jsstring \<Rightarrow> jsstring \<Rightarrow> int) \<Rightarrow> LiveCategory list \<Rightarrow> channels_query \<Rightarrow> LiveChannel list" where
  "sorted_channels localeCompare categories q =
     sort_by (channel_compare localeCompare (or_default (q_sort q) (js ''name'')))
       (select_channels categories (q_category q))"

text \<open>
  \<open>Math.ceil(total / limit)\<close>, \<open>total\<close> being an array length.  Division by a zero gives
  an infinity of the sign of the zero (\<open>NaN\<close> for \<open>0 / 0\<close>), division by an infinity a zero
  of its sign, and the ceiling of a negative quotient above \<open>-1\<close> is the negative zero.
  For a finite non-zero limit the quotient is rounded to a double before \<open>Math.ceil\<close>; as
  an array length is below \<open>2^32\<close>, the rounded quotient has the ceiling of the exact one
  (its rounding error is below \<open>1 / limit\<close>, the least distance of a quotient that is not
  an integer from an integer).
\<close>

definition ceil_div :: "nat \<Rightarrow> jsnum \<Rightarrow> jsnum" where
  "ceil_div n limit =
     (case limit of
        NaN \<Rightarrow> NaN
      | PosInf \<Rightarrow> Num 0
      | NegInf \<Rightarrow> NegZero
      | NegZero \<Rightarrow> (if n = 0 then NaN else NegInf)
      | Num l \<Rightarrow>
          if l = 0 then (if n = 0 then NaN else PosInf)
          else if n = 0 then (if l < 0 then NegZero else Num 0)
          else if - ((- int n) div l) = 0 then NegZero
          else Num (- ((- int n) div l)))"

record pagination =
  pg_page :: jsnum
  pg_limit :: jsnum
  pg_total :: nat
  pg_pages :: jsnum

record channels_response =
  resp_channels :: "LiveChannel list"
  resp_pagination :: pagination

text \<open>
  \<open>handleGetChannels\<close>, lines 88-139, on the categories that \<open>getChannelsData\<close> returned.
  The result is the response (its values before they are written as JSON) and the
  categories afterwards: \<open>sort\<close> works in place, so when a category was selected its
  \<open>channels\<close> array, which is the array of the cached category, is left sorted; without a
  category the array sorted is the new one that \<open>flatMap\<close> made.
\<close>

definition categories_after_sort ::
  "LiveCategory list \<Rightarrow> jsstring option \<Rightarrow> LiveChannel list \<Rightarrow> LiveCategory list" where
  "categories_after_sort categories categoryId allChannels =
     (if or_default categoryId [] \<noteq> [] then
        update_first (\<lambda>cat. Some (cat_id cat) = categoryId)
          (\<lambda>cat. cat\<lparr>cat_channels := allChannels\<rparr>) categories
      else categories)"

definition handleGetChannels ::
  "(jsstring \<Rightarrow> jsstring \<Rightarrow> int) \<Rightarrow> LiveCategory list \<Rightarrow> channels_query
     \<Rightarrow> channels_response \<times> LiveCategory list" where
  "handleGetChannels localeCompare categories q =
     (let page = parseInt (or_default (q_page q) (js ''1''));
          limit = parseInt (or_default (q_limit q) (js ''50''));
          allChannels = sorted_channels localeCompare categories q;
          startIndex = num_mul (num_sub1 page) limit;
          endIndex = num_add startIndex limit;
          paginatedChannels = js_slice allChannels startIndex endIndex
      in (\<lparr>resp_channels = paginatedChannels,
           resp_pagination =
             \<lparr>pg_page = page, pg_limit = limit, pg_total = length allChannels,
              pg_pages = ceil_div (length allChannels) limit\<rparr>\<rparr>,
          categories_after_sort categories (q_category q) allChannels))"

section \<open>The URL constructor\<close>

text \<open>
  \<open>new URL(s)\<close> is the platform's parser.  The functions that call it take it as a parameter
  \<open>URL\<close>: \<open>None\<close> is the TypeError it throws on a string that is not a valid URL, and the
  record holds the properties read from the object.
\<close>

record url_parts =
  u_host :: jsstring
  u_pathname :: jsstring
  u_search :: jsstring
  u_origin :: jsstring

text \<open>
  A parser of the plain form \<open>scheme://host/path?query#fragment\<close> for the schemes \<open>http\<close>
  and \<open>https\<close>, which instantiates the parameter in the concrete examples.  Like the
  platform's parser it rejects a string without scheme and an empty host, gives the path
  \<open>/\<close> when there is none, and the empty \<open>search\<close> for an empty query; the normalisations
  of the platform's parser (case, ports, credentials, dot segments, escapes) are not part
  of it.
\<close>

definition url_delimiter :: "nat \<Rightarrow> bool" where
  "url_delimiter c \<longleftrightarrow> c = 47 \<or> c = 63 \<or> c = 35"

definition query_delimiter :: "nat \<Rightarrow> bool" where
  "query_delimiter c \<longleftrightarrow> c = 63 \<or> c = 35"

definition simple_URL_after :: "jsstring \<Rightarrow> jsstring \<Rightarrow> url_parts option" where
  "simple_URL_after scheme rest =
     (let host = takeWhile (\<lambda>c. \<not> url_delimiter c) rest;
          after = dropWhile (\<lambda>c. \<not> url_delimiter c) rest;
          path = takeWhile (\<lambda>c. \<not> query_delimiter c) after;
          query = takeWhile (\<lambda>c. c \<noteq> 35) (dropWhile (\<lambda>c. \<not> query_delimiter c) after)
      in if host = [] then None
         else Some \<lparr>u_host = host,
                    u_pathname = (if path = [] then js ''/'' else path),
                    u_search = (if query = js ''?'' then [] else query),
                    u_origin = scheme @ js ''//'' @ host\<rparr>)"

definition simple_URL :: "jsstring \<Rightarrow> url_parts option" where
  "simple_URL s =
     (if startsWith s (js ''https://'') then simple_URL_after (js ''https:'') (drop 8 s)
      else if startsWith s (js ''http://'') then simple_URL_after (js ''http:'') (drop 7 s)
      else None)"

section \<open>ProxyRewriter (the player page and the channel list)\<close>

text \<open>
  \<open>processUrl\<close> of the player page (lines 188-220).  \<open>protocol\<close> is
  \<open>window.location.protocol\<close>, and \<open>None\<close> when there is no \<open>window\<close>.  The function has no
  \<open>try\<close>: the TypeError of the URL constructor leaves it (\<open>Inl\<close>).
\<close>

definition invalid_url :: js_error where
  "invalid_url = JsError (js ''Invalid URL'')"

definition processUrl ::
  "(jsstring \<Rightarrow> url_parts option) \<Rightarrow> jsstring option \<Rightarrow> jsstring \<Rightarrow> js_error + jsstring" where
  "processUrl URL protocol url =
     (if protocol = Some (js ''http:'') \<and> startsWith url (js ''https://'') then
        (case URL url of
           None \<Rightarrow> Inl invalid_url
         | Some urlObj \<Rightarrow>
             Inr (js ''/proxy/'' @ u_host urlObj @ u_pathname urlObj @ u_search urlObj))
      else if protocol \<noteq> None \<and> startsWith url (js ''http://'')
              \<and> protocol = Some (js ''https:'') then
        (case URL url of
           None \<Rightarrow> Inl invalid_url
         | Some urlObj \<Rightarrow>
             Inr (js ''/httpproxy/'' @ u_host urlObj @ u_pathname urlObj @ u_search urlObj))
      else Inr url)"

text \<open>
  \<open>processChannelUrls\<close> of the channel list (lines 108-133): the function mapped over the
  URLs, whose \<open>catch\<close> returns the URL as it is, and the channel with the mapped URLs.
\<close>

definition processChannelUrl ::
  "(jsstring \<Rightarrow> url_parts option) \<Rightarrow> jsstring \<Rightarrow> jsstring" where
  "processChannelUrl URL url =
     (if startsWith url (js ''https://'') then
        (case URL url of
           None \<Rightarrow> url
         | Some urlObj \<Rightarrow>
             js ''/proxy/'' @ u_host urlObj @ u_pathname urlObj @ u_search urlObj)
      else url)"

definition processChannelUrls ::
  "(jsstring \<Rightarrow> url_parts option) \<Rightarrow> jsstring option \<Rightarrow> LiveChannel \<Rightarrow> LiveChannel" where
  "processChannelUrls URL protocol ch =
     (if protocol = Some (js ''http:'') then
        ch\<lparr>ch_urls := map (processChannelUrl URL) (ch_urls ch)\<rparr>
      else ch)"

section \<open>The player page: PlaybackEngineAdapter and SourceFallbackController\<close>

text \<open>
  The state of one playback session: the React state variables of \<open>LivePlayPage\<close>, the
  \<open>video\<close> element's \<open>hls\<close> property and \<open>src\<close>, and the adaptive-streaming engine instances
  that have been constructed and not destroyed (\<open>live_engines\<close>).  An engine instance is
  identified by the number of instances constructed before it.  The state updates of one
  handler or effect are applied together, so a state variable set twice holds the last
  value.  The component renders the \<open>video\<close> element exactly when \<open>channel\<close> is not
  \<open>null\<close>, so \<open>videoRef.current\<close> is not \<open>null\<close> in a handler or an effect exactly when
  \<open>channel\<close> is not.
\<close>

datatype stream_status = Connecting | Connected | StreamError | Idle

datatype player_error =
  InvalidParameters | PlaybackFailed | FatalError jsstring | LoadFailed | InitFailed

record hls_instance =
  hls_id :: nat
  hls_source :: jsstring

record player_state =
  channel :: "LiveChannel option"
  currentUrlIndex :: nat
  isLoading :: bool
  error :: "player_error option"
  streamStatus :: stream_status
  showSourceSelector :: bool
  video_hls :: "nat option"
  video_src :: "jsstring option"
  live_engines :: "hls_instance list"
  engines_created :: nat

text \<open>
  The page's environment: \<open>window.location.protocol\<close>, whether
  \<open>window.Hls?.isSupported()\<close> holds, and the URL constructor.
\<close>

record player_env =
  page_protocol :: "jsstring option"
  hls_supported :: bool
  env_URL :: "jsstring \<Rightarrow> url_parts option"

definition setStreamStatus :: "stream_status \<Rightarrow> player_state \<Rightarrow> player_state" where
  "setStreamStatus v s = s\<lparr>streamStatus := v\<rparr>"

text \<open>The state of the first render.\<close>

definition initial_player :: player_state where
  "initial_player =
     \<lparr>channel = None, currentUrlIndex = 0, isLoading = True, error = None,
      streamStatus = Idle, showSourceSelector = False,
      video_hls = None, video_src = None, live_engines = [], engines_created = 0\<rparr>"

text \<open>
  \<open>loadVideo\<close>, lines 71-153, with the \<open>currentUrlIndex\<close> of the render that created the
  callback as the argument \<open>i\<close>.  \<open>channel.urls[i]\<close> past the end is \<open>undefined\<close>, on which
  \<open>processUrl\<close> throws a TypeError.  Every exception of the \<open>try\<close> body is caught.
\<close>

definition loadVideo :: "player_env \<Rightarrow> nat \<Rightarrow> player_state \<Rightarrow> player_state" where
  "loadVideo env i s =
     (case channel s of
        None \<Rightarrow> s
      | Some ch \<Rightarrow>
          (let s1 = setStreamStatus Connecting (s\<lparr>isLoading := True, error := None\<rparr>);
               processed =
                 (if i < length (ch_urls ch)
                  then processUrl (env_URL env) (page_protocol env) (ch_urls ch ! i)
                  else Inl (JsError (js ''Cannot read properties of undefined'')))
           in case processed of
                Inl e \<Rightarrow>
                  setStreamStatus StreamError (s1\<lparr>error := Some InitFailed, isLoading := False\<rparr>)
              | Inr url \<Rightarrow>
                  if includes_js url (js ''.m3u8'') \<and> hls_supported env then
                    s1\<lparr>live_engines :=
                         live_engines s1 @ [\<lparr>hls_id = engines_created s1, hls_source = url\<rparr>],
                       video_hls := Some (engines_created s1),
                       engines_created := engines_created s1 + 1\<rparr>
                  else s1\<lparr>video_src := Some url\<rparr>))"

text \<open>
  Lines 263-266 and 280-283: \<open>if (videoRef.current?.hls) { hls.destroy(); hls = null }\<close>.
\<close>

definition destroy_hls :: "player_state \<Rightarrow> player_state" where
  "destroy_hls s =
     (case video_hls s of
        None \<Rightarrow> s
      | Some h \<Rightarrow>
          s\<lparr>live_engines := filter (\<lambda>e. hls_id e \<noteq> h) (live_engines s), video_hls := None\<rparr>)"

text \<open>
  \<open>handleRetry\<close>, lines 259-274.  The comparison \<open>currentUrlIndex < channel.urls.length - 1\<close>
  is on integers.  In the last branch \<open>loadVideo\<close> is the callback of the current render,
  which still holds the old index.
\<close>

definition handleRetry :: "player_env \<Rightarrow> player_state \<Rightarrow> player_state" where
  "handleRetry env s =
     (case channel s of
        None \<Rightarrow> s
      | Some ch \<Rightarrow>
          (let s1 = destroy_hls s in
           if int (currentUrlIndex s) < int (length (ch_urls ch)) - 1 then
             s1\<lparr>currentUrlIndex := currentUrlIndex s + 1\<rparr>
           else loadVideo env (currentUrlIndex s) (s1\<lparr>currentUrlIndex := 0\<rparr>)))"

text \<open>\<open>handleSourceSelect\<close>, lines 276-287.\<close>

definition handleSourceSelect :: "nat \<Rightarrow> player_state \<Rightarrow> player_state" where
  "handleSourceSelect i s =
     (if channel s = None \<or> i = currentUrlIndex s then s
      else (destroy_hls s)\<lparr>currentUrlIndex := i, showSourceSelector := False\<rparr>)"

text \<open>
  The effect of lines 156-160, \<open>useEffect(() => { if (channel && videoRef.current)
  loadVideo() }, [channel, currentUrlIndex, loadVideo])\<close>: after a render it runs when
  \<open>channel\<close> or \<open>currentUrlIndex\<close> differs from the previous render (\<open>loadVideo\<close> changes
  exactly then), with the callback of the new render.
\<close>

definition load_effect :: "player_env \<Rightarrow> player_state \<Rightarrow> player_state \<Rightarrow> player_state" where
  "load_effect env prev s =
     (if (channel s \<noteq> channel prev \<or> currentUrlIndex s \<noteq> currentUrlIndex prev)
          \<and> channel s \<noteq> None
      then loadVideo env (currentUrlIndex s) s
      else s)"

text \<open>
  The operations of a session: each is the handler followed by the render and its effect.
  \<open>play\<close> is the effect of lines 47-69 setting the channel on the first render.
\<close>

definition play :: "player_env \<Rightarrow> LiveChannel \<Rightarrow> player_state" where
  "play env ch = load_effect env initial_player (initial_player\<lparr>channel := Some ch\<rparr>)"

definition retry :: "player_env \<Rightarrow> player_state \<Rightarrow> player_state" where
  "retry env s = load_effect env s (handleRetry env s)"

definition selectSource :: "player_env \<Rightarrow> nat \<Rightarrow> player_state \<Rightarrow> player_state" where
  "selectSource env i s = load_effect env s (handleSourceSelect i s)"

text \<open>
  The engine's events, lines 89-116: the manifest was parsed (the quality label is not
  modelled), and an error, which is acted on only when fatal.
\<close>

definition on_manifest_parsed :: "player_state \<Rightarrow> player_state" where
  "on_manifest_parsed s = setStreamStatus Connected (s\<lparr>isLoading := False\<rparr>)"

definition on_hls_error :: "bool \<Rightarrow> jsstring \<Rightarrow> player_state \<Rightarrow> player_state" where
  "on_hls_error fatal details s =
     (if fatal then
        setStreamStatus StreamError (s\<lparr>error := Some (FatalError details), isLoading := False\<rparr>)
      else s)"

text \<open>
  The live engine instances are exactly the one stored on the \<open>video\<close> element, if any.
\<close>

definition single_engine :: "player_state \<Rightarrow> bool" where
  "single_engine s \<longleftrightarrow>
     map hls_id (live_engines s) = (case video_hls s of None \<Rightarrow> [] | Some h \<Rightarrow> [h])"

text \<open>The \<open>video\<close> element's own events in the native branch, lines 125-138.\<close>

definition on_loadeddata :: "player_state \<Rightarrow> player_state" where
  "on_loadeddata s = setStreamStatus Connected (s\<lparr>isLoading := False\<rparr>)"

definition on_video_error :: "player_state \<Rightarrow> player_state" where
  "on_video_error s =
     setStreamStatus StreamError (s\<lparr>error := Some LoadFailed, isLoading := False\<rparr>)"

section \<open>ProxyGateway (src/app/api/proxy/[...path]/route.ts)\<close>

text \<open>
  Header names are case-insensitive: a header list is keyed by the lower-case name, and
  \<open>set\<close> replaces the value of a name that is present.
\<close>

type_synonym headers = "(jsstring \<times> jsstring) list"

definition header_get :: "headers \<Rightarrow> jsstring \<Rightarrow> jsstring option" where
  "header_get h k = map_of h (toLowerCase k)"

definition header_set :: "headers \<Rightarrow> jsstring \<Rightarrow> jsstring \<Rightarrow> headers" where
  "header_set h k v = AList.update (toLowerCase k) v h"

text \<open>
  \<open>keys.forEach(key => { const value = src.get(key); if (value) dst.set(key, value) })\<close>:
  an absent header and an empty value are falsy.
\<close>

definition copy_headers :: "jsstring list \<Rightarrow> headers \<Rightarrow> headers \<Rightarrow> headers" where
  "copy_headers keys src dst =
     foldl (\<lambda>h k. case header_get src k of
                     None \<Rightarrow> h
                   | Some v \<Rightarrow> if v = [] then h else header_set h k v) dst keys"

record proxy_request =
  req_url :: jsstring
  req_headers :: headers

text \<open>One call of \<open>fetch\<close>: the upstream request.\<close>

record fetch_call =
  fc_url :: jsstring
  fc_method :: jsstring
  fc_headers :: headers

record upstream_response =
  up_status :: nat
  up_statusText :: jsstring
  up_headers :: headers
  up_body :: "jsstring option"

text \<open>\<open>response.ok\<close>: the status is in the range 200-299.\<close>

definition up_ok :: "upstream_response \<Rightarrow> bool" where
  "up_ok r \<longleftrightarrow> 200 \<le> up_status r \<and> up_status r \<le> 299"

text \<open>
  The response of the handler, with the headers the handler sets (the content type that
  the \<open>Response\<close> constructor derives from a text body is not listed).
\<close>

record proxy_response =
  pr_status :: nat
  pr_statusText :: "jsstring option"
  pr_headers :: headers
  pr_body :: "jsstring option"

text \<open>
  \<open>new Response(body, {status, statusText, headers})\<close> throws a RangeError for a status
  outside 200-599 and a TypeError for a body that is not \<open>null\<close> with a null-body status.
\<close>

definition null_body_status :: "nat \<Rightarrow> bool" where
  "null_body_status st \<longleftrightarrow> st = 101 \<or> st = 103 \<or> st = 204 \<or> st = 205 \<or> st = 304"

definition new_Response ::
  "jsstring option \<Rightarrow> nat \<Rightarrow> jsstring option \<Rightarrow> headers \<Rightarrow> js_error + proxy_response" where
  "new_Response body st statusText hs =
     (if st < 200 \<or> 599 < st then Inl (JsError (js ''RangeError''))
      else if body \<noteq> None \<and> null_body_status st then Inl (JsError (js ''TypeError''))
      else Inr \<lparr>pr_status = st, pr_statusText = statusText, pr_headers = hs, pr_body = body\<rparr>)"

text \<open>The decimal digits of a number, for the template strings.\<close>

function decimal :: "nat \<Rightarrow> jsstring" where
  "decimal n = (if n < 10 then [48 + n] else decimal (n div 10) @ [48 + n mod 10])"
  by pat_completeness auto
termination
  by (relation "measure id") auto

declare decimal.simps [simp del]

definition error_message :: "js_error \<Rightarrow> jsstring" where
  "error_message e = (case e of JsError m \<Rightarrow> m)"

definition proxy_failure :: "js_error \<Rightarrow> proxy_response" where
  "proxy_failure e =
     \<lparr>pr_status = 500, pr_statusText = None, pr_headers = [],
      pr_body = Some (js ''Proxy error: '' @ error_message e)\<rparr>"

text \<open>The \<open>catch\<close> of \<open>GET\<close> around a \<open>Response\<close> constructor that may throw.\<close>

definition caught :: "js_error + proxy_response \<Rightarrow> proxy_response" where
  "caught r = (case r of Inr response \<Rightarrow> response | Inl e \<Rightarrow> proxy_failure e)"

definition target_url :: "jsstring \<Rightarrow> jsstring list \<Rightarrow> jsstring \<Rightarrow> jsstring" where
  "target_url host rest search =
     js ''https://'' @ host @ js ''/'' @ join_js (js ''/'') rest @ search"

definition cors_GET :: "headers \<Rightarrow> headers" where
  "cors_GET h =
     header_set
       (header_set
         (header_set
           (header_set h (js ''Access-Control-Allow-Origin'') (js ''*''))
           (js ''Access-Control-Allow-Methods'') (js ''GET, HEAD, OPTIONS''))
         (js ''Access-Control-Allow-Headers'') (js ''Range, Accept, User-Agent''))
       (js ''Access-Control-Expose-Headers'') (js ''Content-Range, Content-Length, Accept-Ranges'')"

text \<open>
  \<open>GET\<close>, lines 3-96.  \<open>path\<close> is \<open>params.path\<close> (\<open>None\<close> when it is \<open>undefined\<close>), \<open>URL\<close> the
  URL constructor and \<open>fetch\<close> the upstream (\<open>Inl\<close> when the promise is rejected).  The
  result is the response and the list of the calls of \<open>fetch\<close> that were made.  Every
  exception, also that of the \<open>Response\<close> constructor on the status of the upstream, is
  caught and answered with status 500.
\<close>

definition proxy_GET ::
  "(jsstring \<Rightarrow> url_parts option) \<Rightarrow> (fetch_call \<Rightarrow> js_error + upstream_response)
     \<Rightarrow> proxy_request \<Rightarrow> jsstring list option \<Rightarrow> proxy_response \<times> fetch_call list" where
  "proxy_GET URL fetch request path =
     (case path of
        None \<Rightarrow>
          (\<lparr>pr_status = 400, pr_statusText = None, pr_headers = [],
            pr_body = Some (js ''Missing path'')\<rparr>, [])
      | Some [] \<Rightarrow>
          (\<lparr>pr_status = 400, pr_statusText = None, pr_headers = [],
            pr_body = Some (js ''Missing path'')\<rparr>, [])
      | Some (host # rest) \<Rightarrow>
          (case URL (req_url request) of
             None \<Rightarrow> (proxy_failure invalid_url, [])
           | Some url \<Rightarrow>
               (let targetUrl = target_url host rest (u_search url);
                    headers = copy_headers [js ''range'', js ''accept'', js ''user-agent'']
                                (req_headers request) []
                in case URL targetUrl of
                     None \<Rightarrow> (proxy_failure invalid_url, [])
                   | Some target \<Rightarrow>
                       (let call = \<lparr>fc_url = targetUrl, fc_method = js ''GET'',
                                    fc_headers =
                                      header_set (header_set headers (js ''Origin'') (u_origin target))
                                        (js ''Referer'') (u_origin target)\<rparr>
                        in case fetch call of
                             Inl e \<Rightarrow> (proxy_failure e, [call])
                           | Inr response \<Rightarrow>
                               if \<not> up_ok response then
                                 (caught
                                    (new_Response
                                       (Some (js ''Proxy error: '' @ decimal (up_status response)
                                              @ js '' '' @ up_statusText response))
                                       (up_status response) None []), [call])
                               else
                                 (caught
                                    (new_Response (up_body response) (up_status response)
                                       (Some (up_statusText response))
                                       (cors_GET
                                          (copy_headers
                                             [js ''content-type'', js ''content-length'',
                                              js ''content-range'', js ''accept-ranges'',
                                              js ''cache-control'', js ''last-modified'',
                                              js ''etag'']
                                             (up_headers response) []))), [call])))))"

text \<open>\<open>HEAD\<close>, lines 98-150.\<close>

definition proxy_HEAD ::
  "(jsstring \<Rightarrow> url_parts option) \<Rightarrow> (fetch_call \<Rightarrow> js_error + upstream_response)
     \<Rightarrow> proxy_request \<Rightarrow> jsstring list option \<Rightarrow> proxy_response \<times> fetch_call list" where
  "proxy_HEAD URL fetch request path =
     (case path of
        None \<Rightarrow>
          (\<lparr>pr_status = 400, pr_statusText = None, pr_headers = [], pr_body = None\<rparr>, [])
      | Some [] \<Rightarrow>
          (\<lparr>pr_status = 400, pr_statusText = None, pr_headers = [], pr_body = None\<rparr>, [])
      | Some (host # rest) \<Rightarrow>
          (case URL (req_url request) of
             None \<Rightarrow>
               (\<lparr>pr_status = 500, pr_statusText = None, pr_headers = [], pr_body = None\<rparr>, [])
           | Some url \<Rightarrow>
               (let targetUrl = target_url host rest (u_search url)
                in case URL targetUrl of
                     None \<Rightarrow>
                       (\<lparr>pr_status = 500, pr_statusText = None, pr_headers = [],
                         pr_body = None\<rparr>, [])
                   | Some target \<Rightarrow>
                       (let call = \<lparr>fc_url = targetUrl, fc_method = js ''HEAD'',
                                    fc_headers =
                                      header_set (header_set [] (js ''Origin'') (u_origin target))
                                        (js ''Referer'') (u_origin target)\<rparr>
                        in case fetch call of
                             Inl e \<Rightarrow>
                               (\<lparr>pr_status = 500, pr_statusText = None, pr_headers = [],
                                 pr_body = None\<rparr>, [call])
                           | Inr response \<Rightarrow>
                               (case new_Response None (up_status response) None
                                       (header_set
                                          (header_set
                                             (copy_headers
                                                [js ''content-type'', js ''content-length'',
                                                 js ''accept-ranges'', js ''cache-control'',
                                                 js ''last-modified'', js ''etag'']
                                                (up_headers response) [])
                                             (js ''Access-Control-Allow-Origin'') (js ''*''))
                                          (js ''Access-Control-Allow-Methods'')
                                          (js ''GET, HEAD, OPTIONS'')) of
                                  Inr r \<Rightarrow> (r, [call])
                                | Inl e \<Rightarrow>
                                    (\<lparr>pr_status = 500, pr_statusText = None, pr_headers = [],
                                      pr_body = None\<rparr>, [call]))))))"

section \<open>Example data\<close>

text \<open>
  A channel and a collation for the concrete examples: \<open>codeunit_compare\<close> orders strings
  by their code units, as \<open>localeCompare\<close> orders lower-case ASCII words.
\<close>

definition example_channel :: "jsstring \<Rightarrow> jsstring list \<Rightarrow> LiveChannel" where
  "example_channel n us =
     \<lparr>ch_id = n, ch_name = n, ch_urls = us, ch_category = js ''News'',
      ch_description = None, ch_tags = None, ch_quality = Some SD, ch_language = None,
      ch_country = None, ch_isActive = Some True, ch_format = Some HLS\<rparr>"

fun codeunit_compare :: "jsstring \<Rightarrow> jsstring \<Rightarrow> int" where
  "codeunit_compare [] [] = 0"
| "codeunit_compare [] (y # ys) = - 1"
| "codeunit_compare (x # xs) [] = 1"
| "codeunit_compare (x # xs) (y # ys) =
     (if x < y then - 1 else if y < x then 1 else codeunit_compare xs ys)"

definition example_categories :: "LiveCategory list" where
  "example_categories =
     [\<lparr>cat_id = js ''news'', cat_name = js ''News'', cat_sortOrder = Some 0,
       cat_channels =
         [example_channel (js ''c'') [js ''http://c/1.m3u8''],
          example_channel (js ''a'') [js ''http://a/1.m3u8''],
          example_channel (js ''b'') [js ''http://b/1.m3u8'']]\<rparr>]"

definition example_env :: player_env where
  "example_env = \<lparr>page_protocol = Some (js ''http:''), hls_supported = True, env_URL = simple_URL\<rparr>"

definition three_source_channel :: LiveChannel where
  "three_source_channel =
     example_channel (js ''cctv1'')
       [js ''http://a/1.m3u8'', js ''http://b/1.m3u8'', js ''http://c/1.m3u8'']"


definition example_request :: proxy_request where
  "example_request = \<lparr>req_url = js ''http://localhost/proxy'', req_headers = []\<rparr>"

definition example_fetch :: "fetch_call \<Rightarrow> js_error + upstream_response" where
  "example_fetch call =
     Inr \<lparr>up_status = 200, up_statusText = js ''OK'', up_headers = [], up_body = Some []\<rparr>"


text \<open>
  A session on \<open>three_source_channel\<close>, and a fatal engine error followed by a retry.
\<close>

definition session0 :: player_state where
  "session0 = play example_env three_source_channel"

definition fail_and_retry :: "player_state \<Rightarrow> player_state" where
  "fail_and_retry s = retry example_env (on_hls_error True (js ''networkError'') s)"

text \<open>
  A delimited catalog with two category markers; in the second category three lines name
  the channel \<open>CCTV2\<close>, the third with the URL of the first.
\<close>

definition example_catalog :: jsstring where
  "example_catalog =
     js ''A,#genre#'' @ [10]
     @ js ''x'' @ arrow @ js ''CCTV1,http://a/1'' @ [10]
     @ js ''B,#genre#'' @ [10]
     @ js ''x'' @ arrow @ js ''CCTV2,http://b/1'' @ [10]
     @ js ''y'' @ arrow @ js ''CCTV2,http://b/2'' @ [10]
     @ js ''z'' @ arrow @ js ''CCTV2,http://b/1'' @ [10]"


section \<open>Properties of the string operations\<close>

lemma includes_js_iff: "includes_js s p \<longleftrightarrow> (\<exists>i \<le> length s. startsWith (drop i s) p)"
proof (induction s)
  case Nil
  show ?case by (auto simp: startsWith_def)
next
  case (Cons c cs)
  show ?case
  proof
    assume "includes_js (c # cs) p"
    then consider "startsWith (c # cs) p" | "includes_js cs p"
      by (auto split: if_splits)
    then show "\<exists>i \<le> length (c # cs). startsWith (drop i (c # cs)) p"
    proof cases
      case 1
      then have "startsWith (drop 0 (c # cs)) p" by simp
      then show ?thesis by blast
    next
      case 2
      with Cons.IH obtain i where "i \<le> length cs" "startsWith (drop i cs) p" by blast
      then have "Suc i \<le> length (c # cs)" "startsWith (drop (Suc i) (c # cs)) p" by simp_all
      then show ?thesis by blast
    qed
  next
    assume "\<exists>i \<le> length (c # cs). startsWith (drop i (c # cs)) p"
    then obtain i where i: "i \<le> length (c # cs)" "startsWith (drop i (c # cs)) p" by blast
    show "includes_js (c # cs) p"
    proof (cases i)
      case 0
      with i show ?thesis by simp
    next
      case (Suc j)
      with i have "j \<le> length cs" "startsWith (drop j cs) p" by simp_all
      with Cons.IH have "includes_js cs p" by blast
      then show ?thesis by simp
    qed
  qed
qed

lemma startsWith_append: "startsWith (p @ s) p"
  by (simp add: startsWith_def)

lemma includes_js_append: "includes_js (a @ p @ b) p"
proof -
  have "startsWith (drop (length a) (a @ p @ b)) p"
    by (simp add: startsWith_def)
  moreover have "length a \<le> length (a @ p @ b)" by simp
  ultimately show ?thesis unfolding includes_js_iff by blast
qed

lemma take_eq_length: "take n xs = p \<Longrightarrow> length p = n \<Longrightarrow> n \<le> length xs"
  by auto

lemma includes_js_trans:
  assumes "includes_js s p" and "includes_js p q"
  shows "includes_js s q"
proof -
  from assms(1) obtain i where i: "i \<le> length s" "take (length p) (drop i s) = p"
    unfolding includes_js_iff startsWith_def by blast
  from assms(2) obtain j where j: "j \<le> length p" "take (length q) (drop j p) = q"
    unfolding includes_js_iff startsWith_def by blast
  have lp: "length p \<le> length s - i"
    using take_eq_length[OF i(2)] by simp
  have lq: "length q \<le> length p - j"
    using take_eq_length[OF j(2)] by simp
  have "drop j p = drop j (take (length p) (drop i s))" using i(2) by simp
  also have "\<dots> = take (length p - j) (drop (i + j) s)"
    by (simp add: drop_take add.commute)
  finally have "take (length q) (drop j p) =
      take (length q) (take (length p - j) (drop (i + j) s))"
    by simp
  with lq j(2) have "take (length q) (drop (i + j) s) = q"
    by (simp add: min_def)
  moreover have "i + j \<le> length s" using lp j(1) i(1) by linarith
  ultimately show ?thesis unfolding includes_js_iff startsWith_def by blast
qed

lemma js_Nil: "js [] = []"
  by (simp add: js_def)

lemma js_Cons: "js (c # cs) = of_char c # js cs"
  by (simp add: js_def)

lemmas string_eval =
  js_Nil js_Cons startsWith_def toLowerCase_def lower_unit_def trim_def js_white_def
  substring_def substring_from_def indexOf_def content_lines_def

section \<open>FormatDetector: the resolution tier\<close>

lemma includes_hd_if_fhd: "includes_js s (js ''fhd'') \<Longrightarrow> includes_js s (js ''hd'')"
proof -
  have "includes_js (js ''fhd'') (js ''hd'')"
    by (simp add: string_eval)
  then show "includes_js s (js ''fhd'') \<Longrightarrow> includes_js s (js ''hd'')"
    by (rule includes_js_trans[rotated])
qed

lemma includes_gaoqing_if_quangaoqing:
  "includes_js s kw_quangaoqing \<Longrightarrow> includes_js s kw_gaoqing"
proof -
  have "includes_js kw_quangaoqing kw_gaoqing"
    by (simp add: kw_quangaoqing_def kw_gaoqing_def string_eval)
  then show "includes_js s kw_quangaoqing \<Longrightarrow> includes_js s kw_gaoqing"
    by (rule includes_js_trans[rotated])
qed

text \<open>
  What the code computes: the FHD tier is reached through the keyword \<open>1080p\<close> only, and
  only when no HD keyword occurs; \<open>fhd\<close> and the three-character CJK keyword contain an HD
  keyword and therefore yield HD.
\<close>

lemma detectQuality_FHD_iff:
  "detectQuality name = FHD \<longleftrightarrow>
     includes_js (toLowerCase name) (js ''1080p'')
     \<and> \<not> includes_js (toLowerCase name) (js ''hd'')
     \<and> \<not> includes_js (toLowerCase name) kw_gaoqing"
  using includes_hd_if_fhd[of "toLowerCase name"]
    includes_gaoqing_if_quangaoqing[of "toLowerCase name"]
  by (auto simp: detectQuality_def Let_def)

lemma detectQuality_fhd_keyword:
  "includes_js (toLowerCase name) (js ''fhd'') \<or> includes_js (toLowerCase name) kw_quangaoqing
   \<Longrightarrow> detectQuality name = HD"
  using includes_hd_if_fhd[of "toLowerCase name"]
    includes_gaoqing_if_quangaoqing[of "toLowerCase name"]
  by (auto simp: detectQuality_def Let_def)

text \<open>
  C1.  The claim says that a channel name containing \<open>fhd\<close>, \<open>1080p\<close> or the CJK keyword
  for full high definition is classified FHD, the FHD tier being tested before the HD tier.
  The code tests the HD tier first: the names \<open>CCTV1 FHD\<close>, \<open>CCTV1\<close> followed by the CJK
  keyword U+5168 U+9AD8 U+6E05, and \<open>CCTV1 1080p HD\<close> (which matches both tiers) are all
  classified HD.
\<close>

theorem detectQuality_fhd_names_classified_HD:
  "detectQuality (js ''CCTV1 FHD'') = HD
   \<and> detectQuality (js ''CCTV1 '' @ kw_quangaoqing) = HD
   \<and> detectQuality (js ''CCTV1 1080p HD'') = HD"
  by (simp add: detectQuality_def kw_quangaoqing_def kw_gaoqing_def string_eval)

lemma detectQuality_examples:
  "detectQuality (js ''CCTV1 '' @ kw_gaoqing) = HD
   \<and> detectQuality (js ''CCTV1 1080p'') = FHD
   \<and> detectQuality (js ''CCTV1'') = SD"
  by (simp add: detectQuality_def kw_gaoqing_def kw_quangaoqing_def string_eval)

lemma detectStreamFormat_examples:
  "detectStreamFormat (js ''x.m3u8'') = HLS
   \<and> detectStreamFormat (js ''x.mpd'') = DASH
   \<and> detectStreamFormat (js ''x.flv'') = FLV
   \<and> detectStreamFormat (js ''rtmp://x'') = RTMP
   \<and> detectStreamFormat (js ''x.mp4'') = HLS"
  by (simp add: detectStreamFormat_def string_eval)

section \<open>PlaylistParser: the M3U scan\<close>

lemma parseM3U_loop_scan:
  "parseM3U_loop lines i items = items @ m3u_scan (drop i lines)"
proof (induction lines i items rule: parseM3U_loop.induct)
  case (1 lines i items)
  show ?case
  proof (cases "i < length lines")
    case False
    then show ?thesis by (simp add: parseM3U_loop.simps[of lines i items])
  next
    case True
    then have d: "drop i lines = lines ! i # drop (Suc i) lines"
      by (simp add: Cons_nth_drop_Suc)
    show ?thesis
    proof (cases "Suc i < length lines")
      case False
      with True have e: "drop (Suc i) lines = []" by simp
      show ?thesis
        using True False 1
        by (subst parseM3U_loop.simps) (auto simp: d e split: option.splits)
    next
      case t: True
      then have e: "drop (Suc i) lines = lines ! Suc i # drop (Suc (Suc i)) lines"
        by (simp add: Cons_nth_drop_Suc)
      show ?thesis
        using True t 1
        by (subst parseM3U_loop.simps) (auto simp: d e split: option.splits)
    qed
  qed
qed

lemma parseM3U_lines_scan: "parseM3U_lines lines = m3u_scan lines"
  by (simp add: parseM3U_lines_def parseM3U_loop_scan)

lemma split_js_not_Nil: "split_js sep s \<noteq> []"
  by (induction s) (auto split: list.splits)

lemma split_js_no_sep: "sep \<notin> set a \<Longrightarrow> split_js sep a = [a]"
  by (induction a) auto

lemma split_js_first_sep:
  "sep \<notin> set a \<Longrightarrow> split_js sep (a @ sep # b) = a # split_js sep b"
  by (induction a) auto

lemma join_split_js: "join_js [sep] (split_js sep s) = s"
proof (induction s)
  case Nil
  show ?case by simp
next
  case (Cons c cs)
  obtain p ps where sp: "split_js sep cs = p # ps"
    using split_js_not_Nil[of sep cs] by (cases "split_js sep cs") auto
  show ?case
  proof (cases "c = sep")
    case True
    with Cons sp show ?thesis by simp
  next
    case False
    with Cons sp show ?thesis by (cases ps) auto
  qed
qed

text \<open>The title is what follows the first comma of the payload, trimmed.\<close>

lemma extinf_title_first_comma:
  "44 \<notin> set d \<Longrightarrow> extinf_title (d @ 44 # t) = trim t"
  by (simp add: extinf_title_def split_js_first_sep js_Nil js_Cons join_split_js)

lemma extinf_title_no_comma: "44 \<notin> set d \<Longrightarrow> extinf_title d = []"
  by (simp add: extinf_title_def split_js_no_sep trim_def)

lemma substring_from_append:
  "substring_from (p @ s) (int (length p)) = s"
  by (cases s) (simp_all add: substring_from_def substring_def Let_def min_def max_def)

text \<open>The cases of one step of the scan.\<close>

lemma scan_skip:
  "startsWith line (js ''#EXTM3U'') \<or> line = [] \<Longrightarrow> m3u_scan (line # rest) = m3u_scan rest"
  by simp

lemma startsWith_appendD: "startsWith s (p @ q) \<Longrightarrow> startsWith s p"
proof -
  assume "startsWith s (p @ q)"
  then have "take (length p) (take (length (p @ q)) s) = take (length p) (p @ q)"
    by (simp add: startsWith_def)
  then show "startsWith s p" by (simp add: startsWith_def min_def)
qed

lemma extinf_not_skipped:
  assumes "startsWith line (js ''#EXTINF:'')"
  shows "\<not> (startsWith line (js ''#EXTM3U'') \<or> line = [])"
proof
  assume a: "startsWith line (js ''#EXTM3U'') \<or> line = []"
  have "js ''#EXTINF:'' = js ''#EXTI'' @ js ''NF:''" by (simp add: js_def)
  with assms have 1: "startsWith line (js ''#EXTI'')"
    using startsWith_appendD by metis
  then have "line \<noteq> []" by (auto simp: string_eval)
  moreover have "js ''#EXTM3U'' = js ''#EXTM'' @ js ''3U''" by (simp add: js_def)
  ultimately have "startsWith line (js ''#EXTM'')"
    using a startsWith_appendD by metis
  with 1 show False by (simp add: string_eval)
qed

lemma scan_extinf_pair:
  "startsWith line (js ''#EXTINF:'') \<Longrightarrow> n \<noteq> [] \<Longrightarrow> \<not> startsWith n (js ''#'') \<Longrightarrow>
   m3u_scan (line # n # r) =
     playlist_item (extinf_title (substring_from line 8)) n # m3u_scan r"
  using extinf_not_skipped[of line]
  by (simp del: m3u_scan.simps add: m3u_scan.simps(2)[of line])

lemma scan_extinf_alone:
  "startsWith line (js ''#EXTINF:'') \<Longrightarrow> n = [] \<or> startsWith n (js ''#'') \<Longrightarrow>
   m3u_scan (line # n # r) = m3u_scan (n # r)"
  by (auto simp del: m3u_scan.simps simp add: m3u_scan.simps(2)[of line])

lemma scan_extinf_last:
  "startsWith line (js ''#EXTINF:'') \<Longrightarrow> m3u_scan [line] = []"
  by simp

lemma scan_other:
  "\<not> startsWith line (js ''#EXTINF:'') \<Longrightarrow>
   m3u_scan (line # rest) =
     (if startsWith line (js ''#EXTM3U'') \<or> line = [] then []
      else if includes_js line (js '',http'')
        then (case direct_item line of Some it \<Rightarrow> [it] | None \<Rightarrow> [])
      else []) @ m3u_scan rest"
  by (simp split: option.splits)

lemma m3u_scan_append_hash:
  assumes h: "startsWith l (js ''#'')"
  shows "m3u_scan (pre @ l # rest) = m3u_scan pre @ m3u_scan (l # rest)"
proof (induction "length pre" arbitrary: pre rule: less_induct)
  case less
  define X where "X = m3u_scan (l # rest)"
  have ih: "m3u_scan (p @ l # rest) = m3u_scan p @ X" if "length p < length pre" for p
    using less[OF that] by (simp add: X_def)
  show ?case
  proof (cases pre)
    case Nil
    then show ?thesis by simp
  next
    case (Cons line rest')
    have ih': "m3u_scan (rest' @ l # rest) = m3u_scan rest' @ X"
      using ih[of rest'] Cons by simp
    show ?thesis
    proof (cases "startsWith line (js ''#EXTINF:'')")
      case False
      have "m3u_scan (line # rest' @ l # rest) = m3u_scan (line # rest') @ X"
        unfolding scan_other[OF False] ih' by simp
      then show ?thesis by (simp add: Cons X_def del: m3u_scan.simps)
    next
      case inf: True
      show ?thesis
      proof (cases rest')
        case Nil
        have "m3u_scan (line # l # rest) = X"
          using scan_extinf_alone[OF inf, of l rest] h by (simp add: X_def del: m3u_scan.simps)
        moreover have "m3u_scan [line] = []" using scan_extinf_last[OF inf] .
        ultimately show ?thesis by (simp add: Cons Nil X_def del: m3u_scan.simps)
      next
        case c2: (Cons n r)
        have ihr: "m3u_scan (r @ l # rest) = m3u_scan r @ X"
          using ih[of r] Cons c2 by simp
        have ihn: "m3u_scan (n # r @ l # rest) = m3u_scan (n # r) @ X"
          using ih' c2 by simp
        have "m3u_scan (line # n # r @ l # rest) = m3u_scan (line # n # r) @ X"
        proof (cases "n \<noteq> [] \<and> \<not> startsWith n (js ''#'')")
          case True
          then show ?thesis
            using scan_extinf_pair[OF inf, of n "r @ l # rest"] scan_extinf_pair[OF inf, of n r]
              ihr ihn
            by (simp del: m3u_scan.simps)
        next
          case False
          then have "n = [] \<or> startsWith n (js ''#'')" by blast
          then show ?thesis
            using scan_extinf_alone[OF inf, of n "r @ l # rest"] scan_extinf_alone[OF inf, of n r]
              ihn
            by (simp del: m3u_scan.simps)
        qed
        then show ?thesis by (simp add: Cons c2 X_def del: m3u_scan.simps)
      qed
    qed
  qed
qed

text \<open>
  C2 (as amended).  For every input text: when the trimmed non-empty lines of the text
  contain a line \<open>#EXTINF:\<close>\<open>d\<close>\<open>,\<close>\<open>t\<close> (\<open>d\<close> without comma, so \<open>t\<close> is everything after
  the first comma of the payload) directly followed by a line \<open>u\<close> that does not start with
  \<open>#\<close>, the parser emits exactly one item for the pair, with name \<open>t\<close> trimmed and URL
  \<open>u\<close>, between the items of the lines before and the items of the lines after it (file
  order).
\<close>

theorem parseM3U_extinf_pair:
  assumes lines: "content_lines content = pre @ (js ''#EXTINF:'' @ d @ 44 # t) # u # post"
    and d: "44 \<notin> set d"
    and u: "\<not> startsWith u (js ''#'')"
  shows "parseM3U content =
           parseM3U_lines pre @ playlist_item (trim t) u # parseM3U_lines post"
proof -
  define l where "l = js ''#EXTINF:'' @ d @ 44 # t"
  have inf: "startsWith l (js ''#EXTINF:'')"
    unfolding l_def by (rule startsWith_append)
  have "js ''#EXTINF:'' = js ''#'' @ js ''EXTINF:''" by (simp add: js_def)
  with inf have hash: "startsWith l (js ''#'')"
    using startsWith_appendD by metis
  have "u \<in> set (content_lines content)" by (simp add: lines)
  then have ne: "u \<noteq> []" by (simp add: content_lines_def)
  have "length (js ''#EXTINF:'') = 8" by (simp add: js_def)
  then have "substring_from l 8 = d @ 44 # t"
    using substring_from_append[of "js ''#EXTINF:''" "d @ 44 # t"] by (simp add: l_def)
  then have title: "extinf_title (substring_from l 8) = trim t"
    using extinf_title_first_comma[OF d] by simp
  have "m3u_scan (pre @ l # u # post) = m3u_scan pre @ m3u_scan (l # u # post)"
    by (rule m3u_scan_append_hash[OF hash])
  also have "m3u_scan (l # u # post) = playlist_item (trim t) u # m3u_scan post"
    using scan_extinf_pair[OF inf ne u] title by simp
  finally show ?thesis
    by (simp add: parseM3U_def parseM3U_lines_scan lines l_def)
qed

theorem parseM3U_extinf_pair_witness:
  "content_lines (js ''#EXTM3U'' @ [10] @ js ''#EXTINF:-1,Channel A'' @ [10] @ js ''http://a'' @ [10])
     = [js ''#EXTM3U''] @ (js ''#EXTINF:'' @ js ''-1'' @ 44 # js ''Channel A'') # js ''http://a'' # []
   \<and> 44 \<notin> set (js ''-1'')
   \<and> \<not> startsWith (js ''http://a'') (js ''#'')
   \<and> parseM3U (js ''#EXTM3U'' @ [10] @ js ''#EXTINF:-1,Channel A'' @ [10] @ js ''http://a'' @ [10])
     = [playlist_item (js ''Channel A'') (js ''http://a'')]"
proof -
  have h1: "content_lines (js ''#EXTM3U'' @ [10] @ js ''#EXTINF:-1,Channel A'' @ [10] @ js ''http://a'' @ [10])
     = [js ''#EXTM3U''] @ (js ''#EXTINF:'' @ js ''-1'' @ 44 # js ''Channel A'') # js ''http://a'' # []"
    by (simp add: string_eval)
  have h2: "44 \<notin> set (js ''-1'')" by (simp add: string_eval)
  have h3: "\<not> startsWith (js ''http://a'') (js ''#'')" by (simp add: string_eval)
  have "parseM3U_lines [js ''#EXTM3U''] = []" "parseM3U_lines [] = []"
    by (simp_all add: parseM3U_lines_scan string_eval)
  moreover have "trim (js ''Channel A'') = js ''Channel A''" by (simp add: string_eval)
  ultimately have "parseM3U (js ''#EXTM3U'' @ [10] @ js ''#EXTINF:-1,Channel A'' @ [10] @ js ''http://a'' @ [10])
     = [playlist_item (js ''Channel A'') (js ''http://a'')]"
    using parseM3U_extinf_pair[OF h1 h2 h3] by simp
  with h1 h2 h3 show ?thesis by blast
qed

text \<open>
  C2 as stated fails where the payload has more than one comma: for the lines
  \<open>#EXTINF:-1,A,B\<close> and \<open>http://a\<close> the item is named \<open>A,B\<close>, while the text after the last
  comma is \<open>B\<close>.
\<close>

theorem parseM3U_title_not_after_last_comma:
  "parseM3U (js ''#EXTINF:-1,A,B'' @ [10] @ js ''http://a'')
     = [playlist_item (js ''A,B'') (js ''http://a'')]
   \<and> title_after_last_comma (js ''-1,A,B'') = js ''B''
   \<and> map item_name (parseM3U (js ''#EXTINF:-1,A,B'' @ [10] @ js ''http://a''))
       \<noteq> [title_after_last_comma (js ''-1,A,B'')]"
  by (simp add: parseM3U_def parseM3U_lines_scan title_after_last_comma_def extinf_title_def
      playlist_item_def string_eval)

section \<open>CatalogCache and catalog query\<close>

lemma getChannelsData_never_throws:
  "\<exists>r. getChannelsData st now readFile JSON_parse = Inr r"
  by (auto simp: getChannelsData_def split: option.splits sum.splits)

text \<open>
  C7.  When the reload from \<open>live.json\<close> fails (the read fails, the content is not JSON, or
  it is the JSON \<open>null\<close>), \<open>getChannelsData\<close> returns normally: the previous snapshot when
  there is one and the empty list otherwise, and the module state is unchanged.
\<close>

theorem getChannelsData_reload_failure:
  assumes "reload_fails readFile JSON_parse"
  shows "getChannelsData st now readFile JSON_parse =
           Inr (case channelsCache st of Some snapshot \<Rightarrow> snapshot | None \<Rightarrow> [], st)"
proof -
  from assms obtain e where "reload_catalog st now readFile JSON_parse = Inl e"
    by (auto simp: reload_fails_def reload_catalog_def split: sum.splits live_doc.splits)
  then show ?thesis
    by (simp add: getChannelsData_def split: option.splits)
qed

theorem getChannelsData_reload_failure_witness:
  "reload_fails (Inl (JsError (js ''ENOENT''))) (\<lambda>c. Inr DocNull)
   \<and> getChannelsData \<lparr>channelsCache = Some example_categories, lastCacheUpdate = 0\<rparr> 400000
         (Inl (JsError (js ''ENOENT''))) (\<lambda>c. Inr DocNull)
       = Inr (example_categories, \<lparr>channelsCache = Some example_categories, lastCacheUpdate = 0\<rparr>)
   \<and> getChannelsData \<lparr>channelsCache = None, lastCacheUpdate = 0\<rparr> 400000
         (Inl (JsError (js ''ENOENT''))) (\<lambda>c. Inr DocNull)
       = Inr ([], \<lparr>channelsCache = None, lastCacheUpdate = 0\<rparr>)"
proof -
  have h: "reload_fails (Inl (JsError (js ''ENOENT''))) (\<lambda>c. Inr DocNull)"
    by (simp add: reload_fails_def)
  show ?thesis
    using h
      getChannelsData_reload_failure[OF h,
        of "\<lparr>channelsCache = Some example_categories, lastCacheUpdate = 0\<rparr>" 400000]
      getChannelsData_reload_failure[OF h,
        of "\<lparr>channelsCache = None, lastCacheUpdate = 0\<rparr>" 400000]
    by simp
qed

subsection \<open>Numbers, slices and the page of a channels query\<close>











text \<open>
  Without a category the array that is sorted is the new one made by \<open>flatMap\<close>, and the
  cached categories are as they were.
\<close>

lemma handleGetChannels_all_keeps_categories:
  "q_category q = None \<Longrightarrow> snd (handleGetChannels localeCompare categories q) = categories"
  by (simp add: handleGetChannels_def Let_def categories_after_sort_def or_default_def)








section \<open>ProxyRewriter\<close>

lemma processUrl_invalid:
  "URL url = None \<Longrightarrow> startsWith url (js ''https://'') \<Longrightarrow>
   processUrl URL (Some (js ''http:'')) url = Inl invalid_url"
  by (simp add: processUrl_def)

lemma processChannelUrl_invalid:
  "URL url = None \<Longrightarrow> processChannelUrl URL url = url"
  by (simp add: processChannelUrl_def)

text \<open>
  C6.  The claim says that the rewriting decision returns a result for every input string
  and passes a malformed URL through unchanged.  \<open>processChannelUrls\<close> of the channel list
  does so (its \<open>catch\<close> returns the URL), but \<open>processUrl\<close> of the player page has no \<open>try\<close>:
  on an HTTP page the target \<open>https://\<close>, which the URL constructor rejects, makes it
  throw.
\<close>

theorem processUrl_throws_on_malformed_url:
  "processUrl simple_URL (Some (js ''http:'')) (js ''https://'') = Inl invalid_url
   \<and> processChannelUrl simple_URL (js ''https://'') = js ''https://''"
  by (simp add: processUrl_def processChannelUrl_def simple_URL_def simple_URL_after_def
      url_delimiter_def string_eval)

text \<open>
  C8.  On an HTTP page an \<open>https://\<close> target that the URL constructor accepts is rewritten
  to the path \<open>/proxy/\<close> followed by host, path and query; on an HTTPS page an \<open>http://\<close>
  target is rewritten in the same way under \<open>/httpproxy/\<close>, which is not under \<open>/proxy/\<close>;
  in every other case the URL is returned unchanged.
\<close>

theorem processUrl_rewrite:
  "(protocol = Some (js ''http:'') \<and> startsWith url (js ''https://'') \<and> URL url = Some u \<longrightarrow>
      processUrl URL protocol url = Inr (js ''/proxy/'' @ u_host u @ u_pathname u @ u_search u))
   \<and> (protocol = Some (js ''https:'') \<and> startsWith url (js ''http://'') \<and> URL url = Some u \<longrightarrow>
      processUrl URL protocol url = Inr (js ''/httpproxy/'' @ u_host u @ u_pathname u @ u_search u)
      \<and> \<not> startsWith (js ''/httpproxy/'' @ u_host u @ u_pathname u @ u_search u) (js ''/proxy/''))
   \<and> (\<not> (protocol = Some (js ''http:'') \<and> startsWith url (js ''https://''))
        \<and> \<not> (protocol = Some (js ''https:'') \<and> startsWith url (js ''http://'')) \<longrightarrow>
      processUrl URL protocol url = Inr url)"
proof -
  have "js ''http:'' \<noteq> js ''https:''" by (simp add: string_eval)
  moreover have "\<not> startsWith (js ''/httpproxy/'' @ x) (js ''/proxy/'')" for x
    by (simp add: string_eval)
  ultimately show ?thesis
    by (auto simp: processUrl_def)
qed

theorem processUrl_rewrite_witness:
  "simple_URL (js ''https://a.b/c?d=1'')
     = Some \<lparr>u_host = js ''a.b'', u_pathname = js ''/c'', u_search = js ''?d=1'',
             u_origin = js ''https://a.b''\<rparr>
   \<and> processUrl simple_URL (Some (js ''http:'')) (js ''https://a.b/c?d=1'')
       = Inr (js ''/proxy/a.b/c?d=1'')
   \<and> processUrl simple_URL (Some (js ''https:'')) (js ''https://a.b/c?d=1'')
       = Inr (js ''https://a.b/c?d=1'')
   \<and> processUrl simple_URL (Some (js ''https:'')) (js ''http://a.b/c?d=1'')
       = Inr (js ''/httpproxy/a.b/c?d=1'')"
proof -
  have p1: "simple_URL (js ''https://a.b/c?d=1'')
     = Some \<lparr>u_host = js ''a.b'', u_pathname = js ''/c'', u_search = js ''?d=1'',
             u_origin = js ''https://a.b''\<rparr>"
    by (simp add: simple_URL_def simple_URL_after_def url_delimiter_def query_delimiter_def Let_def
        string_eval)
  have p2: "simple_URL (js ''http://a.b/c?d=1'')
     = Some \<lparr>u_host = js ''a.b'', u_pathname = js ''/c'', u_search = js ''?d=1'',
             u_origin = js ''http://a.b''\<rparr>"
    by (simp add: simple_URL_def simple_URL_after_def url_delimiter_def query_delimiter_def Let_def
        string_eval)
  have s1: "startsWith (js ''https://a.b/c?d=1'') (js ''https://'')"
    and s2: "startsWith (js ''http://a.b/c?d=1'') (js ''http://'')"
    and s3: "\<not> startsWith (js ''https://a.b/c?d=1'') (js ''http://'')"
    and ne: "js ''https:'' \<noteq> js ''http:''"
    by (simp_all add: string_eval)
  show ?thesis
    using p1
      processUrl_rewrite[of "Some (js ''http:'')" "js ''https://a.b/c?d=1''" simple_URL
        "\<lparr>u_host = js ''a.b'', u_pathname = js ''/c'', u_search = js ''?d=1'',
          u_origin = js ''https://a.b''\<rparr>"]
      processUrl_rewrite[of "Some (js ''https:'')" "js ''https://a.b/c?d=1''" simple_URL
        "\<lparr>u_host = js ''a.b'', u_pathname = js ''/c'', u_search = js ''?d=1'',
          u_origin = js ''https://a.b''\<rparr>"]
      processUrl_rewrite[of "Some (js ''https:'')" "js ''http://a.b/c?d=1''" simple_URL
        "\<lparr>u_host = js ''a.b'', u_pathname = js ''/c'', u_search = js ''?d=1'',
          u_origin = js ''http://a.b''\<rparr>"]
      p2 s1 s2 s3 ne
    by (simp add: js_def)
qed

section \<open>ProxyGateway\<close>

text \<open>
  C9.  A GET or HEAD request whose path has no host segment (\<open>params.path\<close> undefined or
  empty) is answered with status 400, and \<open>fetch\<close> is not called.
\<close>

theorem proxy_missing_host_rejected:
  assumes "path = None \<or> path = Some []"
  shows "pr_status (fst (proxy_GET URL fetch request path)) = 400
         \<and> snd (proxy_GET URL fetch request path) = []
         \<and> pr_status (fst (proxy_HEAD URL fetch request path)) = 400
         \<and> snd (proxy_HEAD URL fetch request path) = []"
  using assms by (auto simp: proxy_GET_def proxy_HEAD_def)

theorem proxy_missing_host_rejected_witness:
  "(Some [] = (None :: jsstring list option) \<or> Some [] = Some ([] :: jsstring list))
   \<and> pr_status (fst (proxy_GET simple_URL example_fetch example_request (Some []))) = 400
   \<and> snd (proxy_GET simple_URL example_fetch example_request (Some [])) = []
   \<and> pr_status (fst (proxy_HEAD simple_URL example_fetch example_request (Some []))) = 400
   \<and> snd (proxy_HEAD simple_URL example_fetch example_request (Some [])) = []"
proof -
  have h: "Some [] = (None :: jsstring list option) \<or> Some [] = Some ([] :: jsstring list)"
    by simp
  from proxy_missing_host_rejected[OF h, of simple_URL example_fetch example_request] h
  show ?thesis by blast
qed

text \<open>With a host segment and well-formed URLs the upstream is contacted once.\<close>

lemma proxy_GET_contacts_upstream:
  assumes "URL (req_url request) = Some url"
    and "URL (target_url host rest (u_search url)) = Some target"
  shows "map fc_url (snd (proxy_GET URL fetch request (Some (host # rest))))
           = [target_url host rest (u_search url)]"
  using assms by (auto simp: proxy_GET_def Let_def split: sum.splits)

section \<open>SourceFallbackController\<close>

lemma destroy_hls_keeps [simp]:
  "channel (destroy_hls s) = channel s"
  "currentUrlIndex (destroy_hls s) = currentUrlIndex s"
  by (simp_all add: destroy_hls_def split: option.splits)

lemma loadVideo_keeps [simp]:
  "channel (loadVideo env i s) = channel s"
  "currentUrlIndex (loadVideo env i s) = currentUrlIndex s"
  by (simp_all add: loadVideo_def setStreamStatus_def Let_def split: option.splits sum.splits)


lemma loadVideo_init_failed:
  assumes "channel s = Some ch" and "i < length (ch_urls ch)"
    and "processUrl (env_URL env) (page_protocol env) (ch_urls ch ! i) = Inl e"
  shows "streamStatus (loadVideo env i s) = StreamError
         \<and> error (loadVideo env i s) = Some InitFailed"
  using assms
  by (simp add: loadVideo_def setStreamStatus_def Let_def)


lemma on_hls_error_keeps [simp]:
  "channel (on_hls_error fatal details s) = channel s"
  "currentUrlIndex (on_hls_error fatal details s) = currentUrlIndex s"
  by (simp_all add: on_hls_error_def setStreamStatus_def)






section \<open>PlaybackEngineAdapter: the engine instances of a session\<close>

text \<open>
  Where the instances are kept to one: after the stored instance is destroyed none is
  live, and one \<open>loadVideo\<close> then creates at most one.  This covers \<open>play\<close>,
  \<open>selectSource\<close> and every \<open>retry\<close> that does not wrap from a later index to index 0.
\<close>

lemma destroy_hls_none:
  "single_engine s \<Longrightarrow> live_engines (destroy_hls s) = [] \<and> video_hls (destroy_hls s) = None"
  by (auto simp: single_engine_def destroy_hls_def split: option.splits)

lemma loadVideo_from_none:
  assumes "live_engines s = []" and "video_hls s = None"
  shows "single_engine (loadVideo env i s)"
  using assms
  by (simp add: single_engine_def loadVideo_def setStreamStatus_def Let_def
      split: option.splits sum.splits)

lemma play_single_engine: "single_engine (play env ch)"
  by (simp add: play_def load_effect_def initial_player_def loadVideo_from_none)

lemma selectSource_single_engine:
  assumes "single_engine s"
  shows "single_engine (selectSource env i s)"
proof (cases "channel s = None \<or> i = currentUrlIndex s")
  case True
  with assms show ?thesis
    by (auto simp: selectSource_def handleSourceSelect_def load_effect_def)
next
  case False
  define s1 where "s1 = (destroy_hls s)\<lparr>currentUrlIndex := i, showSourceSelector := False\<rparr>"
  have "live_engines s1 = []" "video_hls s1 = None"
    using destroy_hls_none[OF assms] by (simp_all add: s1_def)
  then have "single_engine (loadVideo env i s1)" by (rule loadVideo_from_none)
  moreover have "selectSource env i s = loadVideo env i s1"
    using False by (auto simp: selectSource_def handleSourceSelect_def load_effect_def s1_def)
  ultimately show ?thesis by simp
qed

lemma retry_single_engine:
  assumes "single_engine s" and "channel s = Some ch"
    and "currentUrlIndex s + 1 < length (ch_urls ch) \<or> currentUrlIndex s = 0"
  shows "single_engine (retry env s)"
proof (cases "currentUrlIndex s + 1 < length (ch_urls ch)")
  case True
  define s1 where "s1 = (destroy_hls s)\<lparr>currentUrlIndex := currentUrlIndex s + 1\<rparr>"
  have "live_engines s1 = []" "video_hls s1 = None"
    using destroy_hls_none[OF assms(1)] by (simp_all add: s1_def)
  then have "single_engine (loadVideo env (currentUrlIndex s + 1) s1)"
    by (rule loadVideo_from_none)
  moreover have "retry env s = loadVideo env (currentUrlIndex s + 1) s1"
    using True assms(2)
    by (simp add: retry_def handleRetry_def load_effect_def s1_def Let_def)
  ultimately show ?thesis by simp
next
  case False
  with assms(3) have zero: "currentUrlIndex s = 0" by simp
  define s1 where "s1 = (destroy_hls s)\<lparr>currentUrlIndex := 0\<rparr>"
  have "live_engines s1 = []" "video_hls s1 = None"
    using destroy_hls_none[OF assms(1)] by (simp_all add: s1_def)
  then have "single_engine (loadVideo env 0 s1)"
    by (rule loadVideo_from_none)
  moreover have "retry env s = loadVideo env 0 s1"
    using False zero assms(2)
    by (auto simp: retry_def handleRetry_def load_effect_def s1_def Let_def)
  ultimately show ?thesis by simp
qed

text \<open>
  C4.  The claim says that a session never holds two live engine instances, the existing
  instance being destroyed before a new one is created.  \<open>handleRetry\<close> and
  \<open>handleSourceSelect\<close> destroy the instance stored on the \<open>video\<close> element, but \<open>loadVideo\<close>
  itself does not, and on the last URL \<open>handleRetry\<close> both calls \<open>loadVideo\<close> and changes the
  index, so that the effect calls \<open>loadVideo\<close> again.  On the channel with three HLS URLs the
  third retry leaves the instances 3 and 4 live, and only 4 is stored on the element.
\<close>

theorem wrap_retry_leaves_two_engines:
  "map hls_id (live_engines (fail_and_retry (fail_and_retry session0))) = [2]
   \<and> map hls_id (live_engines (fail_and_retry (fail_and_retry (fail_and_retry session0))))
       = [3, 4]
   \<and> video_hls (fail_and_retry (fail_and_retry (fail_and_retry session0))) = Some 4"
  by (simp add: fail_and_retry_def session0_def play_def retry_def load_effect_def
      handleRetry_def loadVideo_def destroy_hls_def setStreamStatus_def on_hls_error_def
      initial_player_def three_source_channel_def example_channel_def example_env_def
      processUrl_def Let_def string_eval)

section \<open>PlaylistParser: the delimited catalog\<close>

lemma tv_line_classified:
  "tv_line line st =
     (case tv_classify line of
        Genre c \<Rightarrow> open_category c st
      | Entry n u \<Rightarrow> add_channel_url n u st
      | Ignored \<Rightarrow> st)"
  by (simp add: tv_line_def tv_classify_def open_category_def add_channel_url_def
      upsert_channel_def current_channels_def Let_def cong: option.case_cong)

lemma tv_loop_Nil: "tv_loop [] st = st"
  by (simp add: tv_loop_def)

lemma tv_loop_Cons: "tv_loop (line # rest) st = tv_loop rest (tv_line line st)"
  by (simp add: tv_loop_def)

lemma entry_urls_append:
  "entry_urls (es @ fs) c n = entry_urls es c n @ entry_urls fs c n"
  by (simp add: entry_urls_def)

lemma entry_urls_single:
  "entry_urls [(c', n', u)] c n = (if c' = c \<and> n' = n then [u] else [])"
  by (simp add: entry_urls_def)

lemma first_occurrences_snoc:
  "first_occurrences (us @ [u]) = append_new (first_occurrences us) u"
  by (simp add: first_occurrences_def)

lemma set_first_occurrences: "set (first_occurrences us) = set us"
proof (induction us rule: rev_induct)
  case Nil
  show ?case by (simp add: first_occurrences_def)
next
  case (snoc u us)
  then show ?case by (auto simp: first_occurrences_snoc append_new_def)
qed

lemma distinct_first_occurrences: "distinct (first_occurrences us)"
proof (induction us rule: rev_induct)
  case Nil
  show ?case by (simp add: first_occurrences_def)
next
  case (snoc u us)
  then show ?case by (auto simp: first_occurrences_snoc append_new_def)
qed

lemma push_url_merged:
  "us \<noteq> [] \<Longrightarrow> push_url u (merged_channel c n us) = merged_channel c n (us @ [u])"
  by (simp add: push_url_def merged_channel_def first_occurrences_snoc append_new_def)

lemma merged_channel_single: "merged_channel c n [u] = new_channel c n u"
  by (simp add: merged_channel_def first_occurrences_def append_new_def new_channel_def)

lemma ch_name_merged [simp]: "ch_name (merged_channel c n us) = n"
  by (simp add: merged_channel_def new_channel_def)

lemma ch_name_push_url [simp]: "ch_name (push_url u ch) = ch_name ch"
  by (simp add: push_url_def)

lemma update_first_distinct:
  "distinct (map g xs) \<Longrightarrow>
   update_first (\<lambda>x. g x = n) f xs = map (\<lambda>x. if g x = n then f x else x) xs"
proof (induction xs)
  case Nil
  show ?case by simp
next
  case (Cons x xs)
  show ?case
  proof (cases "g x = n")
    case True
    with Cons.prems have "n \<notin> g ` set xs" by simp
    then have "\<forall>y \<in> set xs. g y \<noteq> n" by blast
    then have "map (\<lambda>x. if g x = n then f x else x) xs = xs"
      by (induction xs) auto
    with True show ?thesis by simp
  next
    case False
    with Cons show ?thesis by simp
  qed
qed

lemma new_channel_fields [simp]:
  "ch_name (new_channel c n u) = n"
  "ch_urls (new_channel c n u) = [u]"
  by (simp_all add: new_channel_def)

lemma upsert_channel_cases:
  assumes "distinct (map ch_name chs)"
  shows "upsert_channel c n u chs =
           (if n \<in> ch_name ` set chs
            then map (\<lambda>ch. if ch_name ch = n then push_url u ch else ch) chs
            else chs @ [new_channel c n u])"
proof (cases "find (\<lambda>ch. ch_name ch = n) chs")
  case None
  then have "n \<notin> ch_name ` set chs"
    by (auto simp: find_None_iff)
  with None show ?thesis by (simp add: upsert_channel_def)
next
  case (Some e)
  then have "n \<in> ch_name ` set chs"
    by (auto simp: find_Some_iff)
  with Some show ?thesis
    by (simp add: upsert_channel_def update_first_distinct[OF assms])
qed

lemma upsert_channel_names:
  assumes "distinct (map ch_name chs)"
  shows "distinct (map ch_name (upsert_channel c n u chs))"
    and "ch_name ` set (upsert_channel c n u chs) = insert n (ch_name ` set chs)"
proof -
  have m: "map ch_name (map (\<lambda>ch. if ch_name ch = n then push_url u ch else ch) chs)
             = map ch_name chs"
    by (induction chs) auto
  show "distinct (map ch_name (upsert_channel c n u chs))"
  proof (cases "n \<in> ch_name ` set chs")
    case True
    then have "map ch_name (upsert_channel c n u chs) = map ch_name chs"
      unfolding upsert_channel_cases[OF assms] using m by simp
    with assms show ?thesis by simp
  next
    case False
    then show ?thesis
      using assms by (simp add: upsert_channel_cases[OF assms])
  qed
  have "ch_name ` set (map (\<lambda>ch. if ch_name ch = n then push_url u ch else ch) chs)
          = ch_name ` set chs"
    using m by (metis list.set_map)
  then show "ch_name ` set (upsert_channel c n u chs) = insert n (ch_name ` set chs)"
    by (auto simp: upsert_channel_cases[OF assms])
qed

lemma upsert_channel_member:
  assumes "distinct (map ch_name chs)" and "ch' \<in> set (upsert_channel c n u chs)"
  shows "(\<exists>ch \<in> set chs. ch_name ch = n \<and> ch' = push_url u ch)
         \<or> (ch' \<in> set chs \<and> ch_name ch' \<noteq> n)
         \<or> (n \<notin> ch_name ` set chs \<and> ch' = new_channel c n u)"
  using assms(2) by (auto simp: upsert_channel_cases[OF assms(1)] split: if_splits)

lemma tv_inv_initial: "tv_inv [] (tv_categories tv_initial)"
  by (simp add: tv_inv_def tv_initial_def entry_urls_def)

lemma tv_inv_open:
  assumes "tv_inv es (tv_categories st)"
  shows "tv_inv es (tv_categories (open_category c st))"
proof (cases "map_of (tv_categories st) c = None")
  case False
  with assms show ?thesis by (auto simp: open_category_def)
next
  case True
  define cats where "cats = tv_categories st"
  have m: "map_of (AList.update c [] cats) = (map_of cats)(c \<mapsto> [])"
    by (rule update_conv')
  have inv: "tv_inv es cats" using assms by (simp add: cats_def)
  have none: "map_of cats c = None" using True by (simp add: cats_def)
  have "tv_inv es (AList.update c [] cats)"
    unfolding tv_inv_def
  proof (intro conjI allI impI)
    show "distinct (map fst (AList.update c [] cats))"
      using inv by (simp add: tv_inv_def distinct_update)
  next
    fix k chs
    assume "map_of (AList.update c [] cats) k = Some chs"
    then have "(k = c \<and> chs = []) \<or> map_of cats k = Some chs"
      by (auto simp: m split: if_splits)
    then show "distinct (map ch_name chs)"
      using inv by (auto simp: tv_inv_def)
  next
    fix k chs
    assume "map_of (AList.update c [] cats) k = Some chs"
    then have "(k = c \<and> chs = []) \<or> map_of cats k = Some chs"
      by (auto simp: m split: if_splits)
    then show "\<forall>ch \<in> set chs. entry_urls es k (ch_name ch) \<noteq> []
        \<and> ch = merged_channel k (ch_name ch) (entry_urls es k (ch_name ch))"
      using inv by (auto simp: tv_inv_def)
  next
    fix c' n
    assume "entry_urls es c' n \<noteq> []"
    with inv obtain chs where chs: "map_of cats c' = Some chs" "n \<in> ch_name ` set chs"
      unfolding tv_inv_def by blast
    with none have "c' \<noteq> c" by auto
    with chs show "\<exists>chs. map_of (AList.update c [] cats) c' = Some chs \<and> n \<in> ch_name ` set chs"
      by (simp add: m)
  qed
  with True show ?thesis by (simp add: open_category_def cats_def)
qed

lemma tv_inv_add:
  assumes inv: "tv_inv es (tv_categories st)"
  shows "tv_inv (es @ [(tv_current st, n, u)]) (tv_categories (add_channel_url n u st))"
proof -
  define cats where "cats = tv_categories st"
  define cur where "cur = tv_current st"
  define chs where "chs = current_channels st"
  define chs' where "chs' = upsert_channel cur n u chs"
  define es' where "es' = es @ [(cur, n, u)]"
  have inv: "tv_inv es cats" using inv by (simp add: cats_def)
  have cats': "tv_categories (add_channel_url n u st) = AList.update cur chs' cats"
    by (simp add: add_channel_url_def cats_def cur_def chs_def chs'_def)
  have m: "map_of (AList.update cur chs' cats) = (map_of cats)(cur \<mapsto> chs')"
    by (rule update_conv')
  have urls: "entry_urls es' k x = entry_urls es k x @ (if k = cur \<and> x = n then [u] else [])"
    for k x
    by (auto simp: es'_def entry_urls_append entry_urls_single)
  have chs_cases: "(map_of cats cur = None \<and> chs = []) \<or> map_of cats cur = Some chs"
    by (auto simp: chs_def current_channels_def cats_def cur_def split: option.splits)
  have dist: "distinct (map ch_name chs)"
    using chs_cases inv by (auto simp: tv_inv_def)
  have old: "entry_urls es cur (ch_name ch) \<noteq> []
      \<and> ch = merged_channel cur (ch_name ch) (entry_urls es cur (ch_name ch))"
    if "ch \<in> set chs" for ch
    using chs_cases inv that unfolding tv_inv_def by auto
  have known: "x \<in> ch_name ` set chs" if "entry_urls es cur x \<noteq> []" for x
  proof -
    from inv that obtain c0 where "map_of cats cur = Some c0" "x \<in> ch_name ` set c0"
      unfolding tv_inv_def by blast
    with chs_cases show ?thesis by auto
  qed
  note names = upsert_channel_names[OF dist, of cur n u, folded chs'_def]
  have new: "entry_urls es' cur (ch_name ch') \<noteq> []
      \<and> ch' = merged_channel cur (ch_name ch') (entry_urls es' cur (ch_name ch'))"
    if "ch' \<in> set chs'" for ch'
  proof -
    from upsert_channel_member[OF dist that[unfolded chs'_def]]
    consider (pushed) ch where "ch \<in> set chs" "ch_name ch = n" "ch' = push_url u ch"
      | (kept) "ch' \<in> set chs" "ch_name ch' \<noteq> n"
      | (created) "n \<notin> ch_name ` set chs" "ch' = new_channel cur n u"
      by blast
    then show ?thesis
    proof cases
      case pushed
      from old[OF pushed(1)] pushed(2)
      have ne: "entry_urls es cur n \<noteq> []"
        and ch: "ch = merged_channel cur n (entry_urls es cur n)" by auto
      have "ch' = merged_channel cur n (entry_urls es cur n @ [u])"
        using push_url_merged[OF ne, of u cur n] ch pushed(3) by simp
      then show ?thesis by (simp add: urls)
    next
      case kept
      with old[OF kept(1)] show ?thesis by (simp add: urls)
    next
      case created
      with known[of n] have "entry_urls es cur n = []" by blast
      with created show ?thesis by (simp add: urls merged_channel_single)
    qed
  qed
  have "tv_inv es' (AList.update cur chs' cats)"
    unfolding tv_inv_def
  proof (intro conjI allI impI)
    show "distinct (map fst (AList.update cur chs' cats))"
      using inv by (simp add: tv_inv_def distinct_update)
  next
    fix k c1
    assume "map_of (AList.update cur chs' cats) k = Some c1"
    then have "(k = cur \<and> c1 = chs') \<or> (k \<noteq> cur \<and> map_of cats k = Some c1)"
      by (auto simp: m split: if_splits)
    then show "distinct (map ch_name c1)"
      using inv names(1) by (auto simp: tv_inv_def)
  next
    fix k c1
    assume "map_of (AList.update cur chs' cats) k = Some c1"
    then consider "k = cur" "c1 = chs'" | "k \<noteq> cur" "map_of cats k = Some c1"
      by (auto simp: m split: if_splits)
    then show "\<forall>ch \<in> set c1. entry_urls es' k (ch_name ch) \<noteq> []
        \<and> ch = merged_channel k (ch_name ch) (entry_urls es' k (ch_name ch))"
    proof cases
      case 1
      with new show ?thesis by blast
    next
      case 2
      with inv have "\<forall>ch \<in> set c1. entry_urls es k (ch_name ch) \<noteq> []
        \<and> ch = merged_channel k (ch_name ch) (entry_urls es k (ch_name ch))"
        unfolding tv_inv_def by blast
      with 2(1) show ?thesis by (simp add: urls)
    qed
  next
    fix c x
    assume ne: "entry_urls es' c x \<noteq> []"
    show "\<exists>c1. map_of (AList.update cur chs' cats) c = Some c1 \<and> x \<in> ch_name ` set c1"
    proof (cases "c = cur")
      case True
      have "x \<in> ch_name ` set chs'"
      proof (cases "x = n")
        case True
        then show ?thesis by (simp add: names(2))
      next
        case False
        with ne True have "entry_urls es cur x \<noteq> []" by (simp add: urls)
        from known[OF this] show ?thesis by (simp add: names(2))
      qed
      with True show ?thesis by (simp add: m)
    next
      case False
      with ne have "entry_urls es c x \<noteq> []" by (simp add: urls)
      with inv obtain c1 where "map_of cats c = Some c1" "x \<in> ch_name ` set c1"
        unfolding tv_inv_def by blast
      with False show ?thesis by (simp add: m)
    qed
  qed
  then show ?thesis by (simp add: cats' es'_def cur_def)
qed

lemma tv_loop_inv:
  "tv_inv es (tv_categories st) \<Longrightarrow>
   tv_inv (es @ tv_entries (tv_current st) ls) (tv_categories (tv_loop ls st))"
proof (induction ls arbitrary: es st)
  case Nil
  then show ?case by (simp add: tv_loop_Nil)
next
  case (Cons line rest)
  show ?case
  proof (cases "tv_classify line")
    case (Genre c)
    have "tv_inv (es @ tv_entries (tv_current (open_category c st)) rest)
            (tv_categories (tv_loop rest (open_category c st)))"
      by (rule Cons.IH[OF tv_inv_open[OF Cons.prems]])
    then show ?thesis
      by (simp add: tv_loop_Cons tv_line_classified Genre open_category_def)
  next
    case (Entry n u)
    have "tv_inv ((es @ [(tv_current st, n, u)]) @ tv_entries (tv_current (add_channel_url n u st)) rest)
            (tv_categories (tv_loop rest (add_channel_url n u st)))"
      by (rule Cons.IH[OF tv_inv_add[OF Cons.prems]])
    then show ?thesis
      by (simp add: tv_loop_Cons tv_line_classified Entry add_channel_url_def)
  next
    case Ignored
    with Cons.IH[OF Cons.prems] show ?thesis
      by (simp add: tv_loop_Cons tv_line_classified)
  qed
qed

lemma set_insert_by: "set (insert_by cmp x ys) = insert x (set ys)"
  by (induction ys) auto

lemma set_sort_by: "set (sort_by cmp xs) = set xs"
  by (induction xs) (simp_all add: sort_by_def set_insert_by)

lemma distinct_map_insert_by:
  "distinct (map f (insert_by cmp x ys)) \<longleftrightarrow> f x \<notin> f ` set ys \<and> distinct (map f ys)"
  by (induction ys) (auto simp: set_insert_by)

lemma distinct_map_sort_by: "distinct (map f (sort_by cmp xs)) \<longleftrightarrow> distinct (map f xs)"
  by (induction xs) (simp_all add: sort_by_def distinct_map_insert_by set_insert_by
      set_sort_by[unfolded sort_by_def])

lemma filter_unique:
  "distinct (map f xs) \<Longrightarrow> x \<in> set xs \<Longrightarrow> filter (\<lambda>y. f y = f x) xs = [x]"
proof (induction xs)
  case Nil
  then show ?case by simp
next
  case (Cons a xs)
  from Cons.prems have fa: "f a \<notin> f ` set xs" and d: "distinct (map f xs)" by simp_all
  show ?case
  proof (cases "a = x")
    case True
    from fa True have "\<forall>y \<in> set xs. f y \<noteq> f x" by (metis imageI)
    then have "filter (\<lambda>y. f y = f x) xs = []" by (simp add: filter_empty_conv)
    with True show ?thesis by simp
  next
    case False
    with Cons.prems have x: "x \<in> set xs" by simp
    with fa have "f a \<noteq> f x" by (metis imageI)
    with Cons.IH[OF d x] show ?thesis by simp
  qed
qed

lemma emit_categories_names:
  "map cat_name (emit_categories cmp cats k) = map fst (filter (\<lambda>p. snd p \<noteq> []) cats)"
  by (induction cmp cats k rule: emit_categories.induct) auto

lemma emit_categories_complete:
  "(c, chs) \<in> set cats \<Longrightarrow> chs \<noteq> [] \<Longrightarrow>
   \<exists>cat \<in> set (emit_categories cmp cats k).
     cat_name cat = c
     \<and> cat_channels cat = sort_by (\<lambda>a b. cmp (ch_name a) (ch_name b)) chs"
  by (induction cmp cats k rule: emit_categories.induct) auto

lemma emit_categories_distinct:
  "distinct (map fst cats) \<Longrightarrow> distinct (map cat_name (emit_categories cmp cats k))"
  by (simp add: emit_categories_names distinct_map_filter)

lemma parse_invariant:
  "tv_inv (tv_entries uncategorized (content_lines content))
     (tv_categories (tv_loop (content_lines content) tv_initial))"
  using tv_loop_inv[OF tv_inv_initial, of "content_lines content"]
  by (simp add: tv_initial_def)

text \<open>
  C5.  For every channel line of the text, with its category \<open>c\<close>, channel name \<open>n\<close> and
  URL \<open>u\<close>: the result has exactly one channel named \<open>n\<close> in the category named \<open>c\<close>; its
  URL list is the URLs of all the lines of that category and name in encounter order,
  each appended unless already contained, so it has no duplicate and contains \<open>u\<close>; and
  its format and quality are derived from the first URL and the name.
\<close>

theorem parseChineseTVFormat_merges_repeated_names:
  assumes entry: "(c, n, u) \<in> set (tv_entries uncategorized (content_lines content))"
  shows "\<exists>ch. channels_named (parseChineseTVFormat localeCompare content) c n = [ch]
           \<and> ch_urls ch
               = first_occurrences
                   (entry_urls (tv_entries uncategorized (content_lines content)) c n)
           \<and> distinct (ch_urls ch)
           \<and> u \<in> set (ch_urls ch)
           \<and> ch_format ch
               = Some (detectStreamFormat
                         (hd (entry_urls (tv_entries uncategorized (content_lines content)) c n)))
           \<and> ch_quality ch = Some (detectQuality n)"
proof -
  define es where "es = tv_entries uncategorized (content_lines content)"
  define cats where "cats = tv_categories (tv_loop (content_lines content) tv_initial)"
  define emitted where "emitted = emit_categories localeCompare cats 0"
  define result where "result = parseChineseTVFormat localeCompare content"
  define by_name :: "LiveChannel \<Rightarrow> LiveChannel \<Rightarrow> int"
    where "by_name = (\<lambda>a b. localeCompare (ch_name a) (ch_name b))"
  have inv: "tv_inv es cats"
    unfolding es_def cats_def by (rule parse_invariant)
  have result: "result = sort_by sortOrder_compare emitted"
    by (simp add: result_def parseChineseTVFormat_def emitted_def cats_def)
  from entry have uin: "u \<in> set (entry_urls es c n)"
    by (force simp: entry_urls_def es_def)
  then have ne: "entry_urls es c n \<noteq> []" by auto
  with inv obtain chs where chs: "map_of cats c = Some chs" "n \<in> ch_name ` set chs"
    unfolding tv_inv_def by blast
  then obtain ch where ch: "ch \<in> set chs" "ch_name ch = n" by auto
  from inv chs(1) ch have dist: "distinct (map ch_name chs)"
    and merged: "ch = merged_channel c n (entry_urls es c n)"
    unfolding tv_inv_def by auto
  have keys: "distinct (map fst cats)" using inv by (simp add: tv_inv_def)
  from chs(1) have "(c, chs) \<in> set cats" by (rule map_of_SomeD)
  moreover from ch(1) have "chs \<noteq> []" by auto
  ultimately obtain cat where cat: "cat \<in> set emitted" "cat_name cat = c"
      "cat_channels cat = sort_by by_name chs"
    using emit_categories_complete[of c chs cats localeCompare 0]
    unfolding emitted_def by_name_def by blast
  have "distinct (map cat_name result)"
    unfolding result distinct_map_sort_by emitted_def
    by (rule emit_categories_distinct[OF keys])
  moreover have "cat \<in> set result" using cat(1) by (simp add: result set_sort_by)
  ultimately have "filter (\<lambda>y. cat_name y = cat_name cat) result = [cat]"
    by (rule filter_unique)
  then have one_cat: "filter (\<lambda>y. cat_name y = c) result = [cat]" by (simp add: cat(2))
  have "distinct (map ch_name (sort_by by_name chs))"
    using dist by (simp add: distinct_map_sort_by)
  moreover have "ch \<in> set (sort_by by_name chs)" using ch(1) by (simp add: set_sort_by)
  ultimately have "filter (\<lambda>y. ch_name y = ch_name ch) (sort_by by_name chs) = [ch]"
    by (rule filter_unique)
  then have named: "channels_named result c n = [ch]"
    by (simp add: channels_named_def one_cat cat(3) ch(2))
  have urls: "ch_urls ch = first_occurrences (entry_urls es c n)"
    by (subst merged) (simp add: merged_channel_def)
  have fmt: "ch_format ch = Some (detectStreamFormat (hd (entry_urls es c n)))"
    by (subst merged) (simp add: merged_channel_def new_channel_def)
  have qual: "ch_quality ch = Some (detectQuality n)"
    by (subst merged) (simp add: merged_channel_def new_channel_def)
  have "distinct (ch_urls ch)" "u \<in> set (ch_urls ch)"
    using uin by (simp_all add: urls distinct_first_occurrences set_first_occurrences)
  with named urls fmt qual show ?thesis
    unfolding result_def es_def by blast
qed

lemma example_catalog_entries:
  "tv_entries uncategorized (content_lines example_catalog)
     = [(js ''A'', js ''CCTV1'', js ''http://a/1''),
        (js ''B'', js ''CCTV2'', js ''http://b/1''),
        (js ''B'', js ''CCTV2'', js ''http://b/2''),
        (js ''B'', js ''CCTV2'', js ''http://b/1'')]"
  by (simp add: example_catalog_def tv_classify_def genre_marker_def arrow_def Let_def
      string_eval)

theorem parseChineseTVFormat_merges_repeated_names_witness:
  "(js ''B'', js ''CCTV2'', js ''http://b/2'')
     \<in> set (tv_entries uncategorized (content_lines example_catalog))
   \<and> map ch_urls
         (channels_named (parseChineseTVFormat codeunit_compare example_catalog)
            (js ''B'') (js ''CCTV2''))
       = [[js ''http://b/1'', js ''http://b/2'']]"
proof -
  have h: "(js ''B'', js ''CCTV2'', js ''http://b/2'')
      \<in> set (tv_entries uncategorized (content_lines example_catalog))"
    by (simp add: example_catalog_entries)
  have "first_occurrences
          (entry_urls (tv_entries uncategorized (content_lines example_catalog))
             (js ''B'') (js ''CCTV2''))
        = [js ''http://b/1'', js ''http://b/2'']"
    by (simp add: example_catalog_entries entry_urls_def first_occurrences_def append_new_def
        js_def)
  with parseChineseTVFormat_merges_repeated_names[OF h, of codeunit_compare] h
  show ?thesis by auto
qed

end
